theory Spec2Isabelle
  imports Main "HOL-Library.Sublist"
begin

section \<open>Strings, bytes and exceptions\<close>

text \<open>
  A Python \<open>str\<close> is a sequence of Unicode code points: \<open>len\<close> and slicing count code
  points, not bytes. A \<open>bytes\<close> value (the serialised turn stored in SQLite) is a byte
  string. \<open>lit\<close> turns an ASCII literal of the source into a \<open>str\<close>.
\<close>

type_synonym py_str = "nat list"
type_synonym bytes = string

definition lit :: "string \<Rightarrow> py_str" where
  "lit s = map of_char s"

text \<open>The number of bytes a code point takes in UTF-8, and the UTF-8 size of a \<open>str\<close>.\<close>

definition utf8_width :: "nat \<Rightarrow> nat" where
  "utf8_width c = (if c < 128 then 1 else if c < 2048 then 2 else if c < 65536 then 3 else 4)"

definition utf8_len :: "py_str \<Rightarrow> nat" where
  "utf8_len s = sum_list (map utf8_width s)"

text \<open>Decimal rendering of a natural number, as \<open>%d\<close> and an f-string do.\<close>

fun digits :: "nat \<Rightarrow> nat list" where
  "digits n = (if n < 10 then [n] else digits (n div 10) @ [n mod 10])"

definition str_of_nat :: "nat \<Rightarrow> py_str" where
  "str_of_nat n = map (\<lambda>d. 48 + d) (digits n)"

text \<open>
  The exceptions that occur. \<open>PermissionError\<close>, \<open>FileNotFoundError\<close> and
  \<open>IsADirectoryError\<close> are subclasses of \<open>OSError\<close>; \<open>OtherOSError e\<close> is any other
  \<open>OSError\<close>, with \<open>e\<close> its \<open>str()\<close>. \<open>RuntimeError\<close> and \<open>ValueError\<close> are not
  \<open>OSError\<close>s: \<open>Path.expanduser\<close> raises \<open>RuntimeError\<close> when a home directory cannot
  be determined (\<open>~nosuchuser/x\<close>), and a path with an embedded NUL raises \<open>ValueError\<close>.
\<close>

datatype py_exc =
    PermissionError
  | FileNotFoundError
  | IsADirectoryError
  | OtherOSError py_str
  | RuntimeError py_str
  | ValueError py_str
  | IndexError
  | ValidationError
  | UnexpectedModelBehavior py_str
  | AlreadyApplied

fun is_OSError :: "py_exc \<Rightarrow> bool" where
  "is_OSError PermissionError = True"
| "is_OSError FileNotFoundError = True"
| "is_OSError IsADirectoryError = True"
| "is_OSError (OtherOSError e) = True"
| "is_OSError _ = False"

section \<open>Message model\<close>

text \<open>
  \<open>ChatMessage\<close> is the record sent to the frontend. A timestamp is an instant; its
  \<open>isoformat()\<close> rendering and the JSON encoding of a record are injective formatting
  and are not modelled.
\<close>

type_synonym timestamp = nat

datatype role = User | Model | Tool

record ChatMessage =
  role :: role
  timestamp :: timestamp
  content :: py_str

text \<open>
  The parts of a pydantic-ai message. The content of a user prompt is a \<open>str\<close> or a
  sequence of multi-modal items. \<open>ModelMessage\<close> is the union of \<open>ModelRequest\<close> and
  \<open>ModelResponse\<close>; only the response has a timestamp of its own.
\<close>

datatype user_content = StrContent py_str | SeqContent "py_str list"

datatype part =
    SystemPromptPart py_str
  | UserPromptPart user_content timestamp
  | ToolReturnPart py_str py_str
  | RetryPromptPart py_str
  | TextPart py_str
  | ToolCallPart py_str py_str

datatype ModelMessage =
    ModelRequest "part list"
  | ModelResponse "part list" timestamp

fun parts :: "ModelMessage \<Rightarrow> part list" where
  "parts (ModelRequest ps) = ps"
| "parts (ModelResponse ps ts) = ps"

text \<open>\<open>repr\<close> stands for the text \<open>{m}\<close> formats a message to; it is a parameter.\<close>

definition unexpected :: "(ModelMessage \<Rightarrow> py_str) \<Rightarrow> ModelMessage \<Rightarrow> py_exc" where
  "unexpected repr m = UnexpectedModelBehavior (lit ''Unexpected message type for chat app: '' @ repr m)"

text \<open>
  \<open>to_chat_message\<close>: \<open>m.parts[0]\<close> is evaluated first and raises \<open>IndexError\<close> on a
  message without parts; every path that does not return falls through to the final
  \<open>raise\<close>.
\<close>

fun to_chat_message :: "(ModelMessage \<Rightarrow> py_str) \<Rightarrow> ModelMessage \<Rightarrow> py_exc + ChatMessage" where
  "to_chat_message repr m =
     (case parts m of
        [] \<Rightarrow> Inl IndexError
      | first_part # _ \<Rightarrow>
          (case m of
             ModelRequest _ \<Rightarrow>
               (case first_part of
                  UserPromptPart c ts \<Rightarrow>
                    (case c of
                       StrContent s \<Rightarrow> Inr \<lparr>role = User, timestamp = ts, content = s\<rparr>
                     | SeqContent _ \<Rightarrow> Inl (unexpected repr m))
                | _ \<Rightarrow> Inl (unexpected repr m))
           | ModelResponse _ mts \<Rightarrow>
               (case first_part of
                  TextPart s \<Rightarrow> Inr \<lparr>role = Model, timestamp = mts, content = s\<rparr>
                | _ \<Rightarrow> Inl (unexpected repr m))))"

section \<open>Conversation store\<close>

text \<open>
  The table \<open>messages (id INTEGER PRIMARY KEY AUTOINCREMENT, message_list TEXT)\<close>: a
  list of rows in no particular order, and the largest id ever handed out (SQLite's
  \<open>sqlite_sequence\<close>). The state of the database file is \<open>None\<close> before the table
  exists.
\<close>

record table =
  rows :: "(nat \<times> bytes) list"
  seq :: nat

definition connect :: "table option \<Rightarrow> table" where
  \<comment> \<open>\<open>CREATE TABLE IF NOT EXISTS\<close>\<close>
  "connect file = (case file of None \<Rightarrow> \<lparr>rows = [], seq = 0\<rparr> | Some t \<Rightarrow> t)"

definition next_id :: "table \<Rightarrow> nat" where
  \<comment> \<open>\<open>AUTOINCREMENT\<close>: one more than the largest id in the table or ever used\<close>
  "next_id t = Suc (fold max (map fst (rows t)) (seq t))"

definition add_messages :: "bytes \<Rightarrow> table \<Rightarrow> table" where
  \<comment> \<open>\<open>INSERT INTO messages (message_list) VALUES (?)\<close>, committed\<close>
  "add_messages messages t = \<lparr>rows = (next_id t, messages) # rows t, seq = next_id t\<rparr>"

definition select_message_list :: "table \<Rightarrow> bytes list" where
  \<comment> \<open>\<open>SELECT message_list FROM messages ORDER BY id\<close>\<close>
  "select_message_list t = map snd (sort_key fst (rows t))"

text \<open>
  \<open>validate_json\<close> of \<open>ModelMessagesTypeAdapter\<close> is the parameter \<open>decode\<close>: \<open>None\<close>
  where it raises a validation error.
\<close>

fun extend_rows :: "(bytes \<Rightarrow> ModelMessage list option) \<Rightarrow> bytes list \<Rightarrow> ModelMessage list
    \<Rightarrow> py_exc + ModelMessage list" where
  "extend_rows decode [] messages = Inr messages"
| "extend_rows decode (row # rs) messages =
     (case decode row of
        None \<Rightarrow> Inl ValidationError
      | Some ms \<Rightarrow> extend_rows decode rs (messages @ ms))"

definition get_messages :: "(bytes \<Rightarrow> ModelMessage list option) \<Rightarrow> table \<Rightarrow> py_exc + ModelMessage list" where
  "get_messages decode t = extend_rows decode (select_message_list t) []"

text \<open>\<open>get_chat\<close> converts every message of the history; the first failure propagates.\<close>

fun convert_all :: "(ModelMessage \<Rightarrow> py_str) \<Rightarrow> ModelMessage list \<Rightarrow> py_exc + ChatMessage list" where
  "convert_all repr [] = Inr []"
| "convert_all repr (m # ms) =
     (case to_chat_message repr m of
        Inl e \<Rightarrow> Inl e
      | Inr c \<Rightarrow> (case convert_all repr ms of Inl e \<Rightarrow> Inl e | Inr cs \<Rightarrow> Inr (c # cs)))"

definition get_chat :: "(bytes \<Rightarrow> ModelMessage list option) \<Rightarrow> (ModelMessage \<Rightarrow> py_str) \<Rightarrow> table
    \<Rightarrow> py_exc + ChatMessage list" where
  "get_chat decode repr database =
     (case get_messages decode database of
        Inl e \<Rightarrow> Inl e
      | Inr msgs \<Rightarrow> convert_all repr msgs)"

section \<open>The process and the file tool\<close>

text \<open>
  The state of the server process: the capability set committed to the enforcement
  layer (\<open>None\<close> while no sandbox has been applied) and the number of calls made to
  nono's \<open>apply\<close>, the module-level list \<open>_tool_events\<close>, the records written to the
  logger \<open>chat_app.sandbox\<close>, and the table behind \<open>app.state.db\<close>.
\<close>

datatype AccessMode = READ | READ_WRITE

type_synonym CapabilitySet = "(py_str \<times> AccessMode) list"

datatype level = INFO | WARNING

record process =
  sandbox :: "CapabilitySet option"
  apply_calls :: nat
  tool_events :: "ChatMessage list"
  log_records :: "(level \<times> py_str) list"
  database :: table

text \<open>The process as it starts: no sandbox applied, \<open>_tool_events = []\<close>, nothing logged.\<close>

definition initial_process :: "table \<Rightarrow> process" where
  "initial_process t =
     \<lparr>sandbox = None, apply_calls = 0, tool_events = [], log_records = [], database = t\<rparr>"

definition tool_event :: "timestamp \<Rightarrow> py_str \<Rightarrow> ChatMessage" where
  "tool_event now c = \<lparr>role = Tool, timestamp = now, content = c\<rparr>"

text \<open>
  \<open>read_file\<close>. The parameter \<open>read_text\<close> is what the operating system answers in this
  process to \<open>Path(path).expanduser().resolve()\<close> followed by
  \<open>read_text(errors="replace")\<close>: the decoded text, or the exception raised. Under an
  applied sandbox it is the kernel that turns a read outside the capability set into
  \<open>PermissionError\<close>. \<open>now\<close> is \<open>datetime.now(tz=timezone.utc)\<close>. An exception that no
  \<open>except\<close> clause matches propagates to the caller.
\<close>

definition read_file :: "(py_str \<Rightarrow> py_exc + py_str) \<Rightarrow> timestamp \<Rightarrow> py_str \<Rightarrow> process
    \<Rightarrow> (py_exc + py_str) \<times> process" where
  "read_file read_text now path p =
     (case read_text path of
        Inr text \<Rightarrow>
          (let content = take 4096 text in
           (Inr content,
            p\<lparr>log_records := log_records p @
                 [(INFO, lit ''ALLOWED  read_file('' @ path @ lit '') -> ''
                         @ str_of_nat (length content) @ lit '' bytes'')],
              tool_events := tool_events p @
                 [tool_event now (lit ''read_file('' @ path @ lit '') -- ALLOWED (''
                         @ str_of_nat (length content) @ lit '' bytes read)'')]\<rparr>))
      | Inl exc \<Rightarrow>
          (case exc of
             PermissionError \<Rightarrow>
               (Inr (lit ''BLOCKED by nono sandbox: permission denied reading '' @ path),
                p\<lparr>log_records := log_records p @
                     [(WARNING, lit ''BLOCKED  read_file('' @ path
                             @ lit '') -> PermissionError (sandbox deny)'')],
                  tool_events := tool_events p @
                     [tool_event now (lit ''read_file('' @ path
                             @ lit '') -- BLOCKED by nono sandbox (permission denied)'')]\<rparr>)
           | FileNotFoundError \<Rightarrow>
               (Inr (lit ''File not found: '' @ path),
                p\<lparr>log_records := log_records p @
                     [(INFO, lit ''NOTFOUND read_file('' @ path @ lit '') -> FileNotFoundError'')],
                  tool_events := tool_events p @
                     [tool_event now (lit ''read_file('' @ path @ lit '') -- file not found'')]\<rparr>)
           | IsADirectoryError \<Rightarrow>
               (Inr (lit ''Path is a directory, not a file: '' @ path), p)
           | OtherOSError e \<Rightarrow>
               (Inr (lit ''OS error reading '' @ path @ lit '': '' @ e), p)
           | _ \<Rightarrow> (Inl exc, p)))"

section \<open>Applying the sandbox and serving\<close>

text \<open>What \<open>_apply_sandbox\<close> reads from its environment.\<close>

record environment =
  APP_DIR :: py_str
  python_prefix :: py_str
  site_packages :: "py_str list"
  interpreter_prefix :: py_str
  cwd :: py_str

text \<open>
  Modelled from the spec: \<open>CapabilitySet.allow_path\<close> of \<open>nono_py\<close> is not part of the
  sources. The spec: \<open>allow(path, mode)\<close> registers one entry before the set is
  applied.
\<close>

definition allow_path :: "py_str \<Rightarrow> AccessMode \<Rightarrow> CapabilitySet \<Rightarrow> CapabilitySet" where
  "allow_path path mode caps = caps @ [(path, mode)]"

text \<open>
  Modelled from the spec: \<open>nono_py.apply\<close>, the enforcement layer, is not part of the
  sources. The spec: \<open>apply()\<close> commits the set to the enforcement layer exactly once
  per process; a second call fails with an \<open>AlreadyApplied\<close> error.
\<close>

definition nono_apply :: "CapabilitySet \<Rightarrow> process \<Rightarrow> py_exc + process" where
  "nono_apply caps p =
     (case sandbox p of
        Some _ \<Rightarrow> Inl AlreadyApplied
      | None \<Rightarrow> Inr (p\<lparr>sandbox := Some caps, apply_calls := Suc (apply_calls p)\<rparr>))"

text \<open>
  Modelled from the spec: the check of the enforcement layer is not part of the sources.
  The spec: \<open>check(path, mode)\<close> returns whether an access of \<open>mode\<close> or weaker to the
  canonicalized form of \<open>path\<close> is permitted; path matching is prefix-based against
  canonical paths, so that declaring a directory allows all of its descendants; the
  deny decision is made by the operating system for every underlying syscall.
  \<open>enforced files sb\<close> is the operating system over the files \<open>files\<close> in a process
  whose enforcement layer holds \<open>sb\<close>.
\<close>

definition covers :: "py_str \<Rightarrow> py_str \<Rightarrow> bool" where
  "covers dir path \<longleftrightarrow> path = dir \<or> prefix (dir @ lit ''/'') path"

definition permits :: "AccessMode \<Rightarrow> AccessMode \<Rightarrow> bool" where
  "permits granted mode \<longleftrightarrow> granted = READ_WRITE \<or> mode = READ"

definition check :: "CapabilitySet \<Rightarrow> py_str \<Rightarrow> AccessMode \<Rightarrow> bool" where
  "check caps path mode = list_ex (\<lambda>entry. covers (fst entry) path \<and> permits (snd entry) mode) caps"

definition enforced :: "(py_str \<Rightarrow> py_exc + py_str) \<Rightarrow> CapabilitySet option \<Rightarrow> py_str
    \<Rightarrow> py_exc + py_str" where
  "enforced files sb path =
     (case sb of
        None \<Rightarrow> files path
      | Some caps \<Rightarrow> if check caps path READ then files path else Inl PermissionError)"

definition capabilities :: "environment \<Rightarrow> CapabilitySet" where
  "capabilities env =
     (let caps = [];
          caps = allow_path (APP_DIR env) READ_WRITE caps;
          caps = allow_path (lit ''/tmp'') READ_WRITE caps;
          caps = allow_path (python_prefix env) READ caps;
          caps = fold (\<lambda>sp. allow_path sp READ) (site_packages env) caps;
          caps = allow_path (interpreter_prefix env) READ caps;
          caps = allow_path (cwd env) READ caps;
          caps = allow_path (lit ''/etc'') READ caps;
          caps = allow_path (lit ''/var/run'') READ_WRITE caps
      in caps)"

definition apply_sandbox :: "environment \<Rightarrow> process \<Rightarrow> py_exc + process" where
  "apply_sandbox env p = nono_apply (capabilities env) p"

section \<open>The streaming turn\<close>

text \<open>
  The agent loop is external. One run of \<open>agent.run_stream\<close> is the sequence of what
  it does while the generator waits for it: it calls the tool \<open>read_file\<close> (at some
  instant), \<open>stream_text\<close> delivers the next cumulative text, or it raises.
\<close>

datatype agent_step =
    ToolCall py_str timestamp
  | TextChunk py_str
  | AgentRaise py_exc

record agent_run =
  steps :: "agent_step list"
  result_timestamp :: timestamp
  new_messages_json :: bytes

text \<open>
  What the turn depends on outside this code. \<open>read_text sb\<close> is what the operating
  system answers to a read in a process whose enforcement layer holds \<open>sb\<close> (\<open>None\<close>:
  no sandbox applied): the tool is answered under the sandbox in force when it is called.
\<close>

record deps =
  read_text :: "CapabilitySet option \<Rightarrow> py_str \<Rightarrow> py_exc + py_str"
  decode :: "bytes \<Rightarrow> ModelMessage list option"
  repr :: "ModelMessage \<Rightarrow> py_str"
  agent :: "py_str \<Rightarrow> ModelMessage list \<Rightarrow> agent_run"

text \<open>
  \<open>stream_messages\<close> is an asynchronous generator. Its consumer takes \<open>budget\<close> items
  and then closes it (\<open>None\<close>: it reads to the end): the generator then stays suspended
  at the \<open>yield\<close> that delivered the last item, and nothing after that \<open>yield\<close> runs.
  The \<open>trace\<close> lists, in order, the items yielded and the blobs handed to
  \<open>add_messages\<close>.
\<close>

datatype effect = Emit ChatMessage | Persist bytes

datatype halt = Disconnected | Raised py_exc

record turn =
  budget :: "nat option"
  trace :: "effect list"
  proc :: process

definition yield :: "ChatMessage \<Rightarrow> turn \<Rightarrow> (halt + unit) \<times> turn" where
  "yield item t =
     (let t' = t\<lparr>trace := trace t @ [Emit item], budget := map_option (\<lambda>n. n - 1) (budget t)\<rparr>
      in (if budget t' = Some 0 then Inl Disconnected else Inr (), t'))"

fun yield_each :: "ChatMessage list \<Rightarrow> turn \<Rightarrow> (halt + unit) \<times> turn" where
  "yield_each [] t = (Inr (), t)"
| "yield_each (evt # evts) t =
     (case yield evt t of
        (Inl h, t') \<Rightarrow> (Inl h, t')
      | (Inr _, t') \<Rightarrow> yield_each evts t')"

definition clear_tool_events :: "turn \<Rightarrow> turn" where
  "clear_tool_events t = t\<lparr>proc := (proc t)\<lparr>tool_events := []\<rparr>\<rparr>"

definition persist :: "bytes \<Rightarrow> turn \<Rightarrow> turn" where
  "persist blob t =
     t\<lparr>trace := trace t @ [Persist blob],
       proc := (proc t)\<lparr>database := add_messages blob (database (proc t))\<rparr>\<rparr>"

fun run_stream :: "deps \<Rightarrow> timestamp \<Rightarrow> agent_step list \<Rightarrow> turn \<Rightarrow> (halt + unit) \<times> turn" where
  "run_stream d rts [] t = (Inr (), t)"
| "run_stream d rts (ToolCall path now # ss) t =
     (case read_file (read_text d (sandbox (proc t))) now path (proc t) of
        (Inl e, p') \<Rightarrow> (Inl (Raised e), t\<lparr>proc := p'\<rparr>)
      | (Inr _, p') \<Rightarrow> run_stream d rts ss (t\<lparr>proc := p'\<rparr>))"
| "run_stream d rts (TextChunk text # ss) t =
     (case yield_each (tool_events (proc t)) t of
        (Inl h, t1) \<Rightarrow> (Inl h, t1)
      | (Inr _, t1) \<Rightarrow>
          (case to_chat_message (repr d) (ModelResponse [TextPart text] rts) of
             Inl e \<Rightarrow> (Inl (Raised e), clear_tool_events t1)
           | Inr m \<Rightarrow>
               (case yield m (clear_tool_events t1) of
                  (Inl h, t2) \<Rightarrow> (Inl h, t2)
                | (Inr _, t2) \<Rightarrow> run_stream d rts ss t2)))"
| "run_stream d rts (AgentRaise e # ss) t = (Inl (Raised e), t)"

definition stream_messages :: "deps \<Rightarrow> py_str \<Rightarrow> timestamp \<Rightarrow> turn \<Rightarrow> (halt + unit) \<times> turn" where
  "stream_messages d prompt now t =
     (if budget t = Some 0 then (Inl Disconnected, t)
      else
        (case yield \<lparr>role = User, timestamp = now, content = prompt\<rparr> t of
           (Inl h, t1) \<Rightarrow> (Inl h, t1)
         | (Inr _, t1) \<Rightarrow>
             (case get_messages (decode d) (database (proc t1)) of
                Inl e \<Rightarrow> (Inl (Raised e), t1)
              | Inr messages \<Rightarrow>
                  (let run = agent d prompt messages in
                   (case run_stream d (result_timestamp run) (steps run) (clear_tool_events t1) of
                      (Inl h, t2) \<Rightarrow> (Inl h, t2)
                    | (Inr _, t2) \<Rightarrow>
                        (case yield_each (tool_events (proc t2)) t2 of
                           (Inl h, t3) \<Rightarrow> (Inl h, t3)
                         | (Inr _, t3) \<Rightarrow>
                             (Inr (), persist (new_messages_json run) (clear_tool_events t3))))))))"

text \<open>
  \<open>post_chat\<close> starts a turn on the process; \<open>serve\<close> applies the sandbox unless
  \<open>--no-sandbox\<close> is given and only then runs the server, which handles the traffic.
  An exception of \<open>_apply_sandbox\<close> propagates and the server never starts.
\<close>

datatype request = GetChat | PostChat py_str timestamp "nat option"

datatype response =
    History "py_exc + ChatMessage list"
  | Stream "halt + unit" "effect list"

definition post_chat :: "deps \<Rightarrow> py_str \<Rightarrow> timestamp \<Rightarrow> nat option \<Rightarrow> process \<Rightarrow> (halt + unit) \<times> turn" where
  "post_chat d prompt now consumer p =
     stream_messages d prompt now \<lparr>budget = consumer, trace = [], proc = p\<rparr>"

fun handle :: "deps \<Rightarrow> request \<Rightarrow> process \<Rightarrow> response \<times> process" where
  "handle d GetChat p = (History (get_chat (decode d) (repr d) (database p)), p)"
| "handle d (PostChat prompt now consumer) p =
     (case post_chat d prompt now consumer p of (r, t) \<Rightarrow> (Stream r (trace t), proc t))"

fun uvicorn_run :: "deps \<Rightarrow> request list \<Rightarrow> process \<Rightarrow> response list \<times> process" where
  "uvicorn_run d [] p = ([], p)"
| "uvicorn_run d (rq # rqs) p =
     (case handle d rq p of
        (r, p') \<Rightarrow> (case uvicorn_run d rqs p' of (rs, p'') \<Rightarrow> (r # rs, p'')))"

definition serve :: "deps \<Rightarrow> environment \<Rightarrow> bool \<Rightarrow> request list \<Rightarrow> process
    \<Rightarrow> py_exc + (response list \<times> process)" where
  "serve d env no_sandbox traffic p =
     (case (if \<not> no_sandbox then apply_sandbox env p else Inr p) of
        Inl e \<Rightarrow> Inl e
      | Inr p' \<Rightarrow> Inr (uvicorn_run d traffic p'))"

section \<open>Overlapping turns\<close>

text \<open>
  \<open>_tool_events\<close> is one list of the module, shared by every turn of the process. While
  a turn awaits its agent, the event loop can run another turn: that turn clears the
  list (its own \<open>_tool_events.clear()\<close>), or its agent calls \<open>read_file\<close>, which appends
  to the list. \<open>others\<close> lists, for each step of this turn's agent, what other turns do
  to the list just before it; what is left over happens after the agent's last step.
\<close>

datatype foreign = ForeignClear | ForeignToolCall py_str timestamp

datatype scheduled = Own agent_step | Foreign foreign

fun weave :: "agent_step list \<Rightarrow> foreign list list \<Rightarrow> scheduled list" where
  "weave [] fs = map Foreign (concat fs)"
| "weave (s # ss) [] = Own s # weave ss []"
| "weave (s # ss) (f # fs) = map Foreign f @ Own s # weave ss fs"

fun run_stream_shared :: "deps \<Rightarrow> timestamp \<Rightarrow> scheduled list \<Rightarrow> turn \<Rightarrow> (halt + unit) \<times> turn" where
  "run_stream_shared d rts [] t = (Inr (), t)"
| "run_stream_shared d rts (Foreign ForeignClear # sch) t =
     run_stream_shared d rts sch (clear_tool_events t)"
| "run_stream_shared d rts (Foreign (ForeignToolCall path now) # sch) t =
     run_stream_shared d rts sch
       (t\<lparr>proc := snd (read_file (read_text d (sandbox (proc t))) now path (proc t))\<rparr>)"
| "run_stream_shared d rts (Own s # sch) t =
     (case run_stream d rts [s] t of
        (Inl h, t') \<Rightarrow> (Inl h, t')
      | (Inr _, t') \<Rightarrow> run_stream_shared d rts sch t')"

definition stream_messages_shared :: "deps \<Rightarrow> py_str \<Rightarrow> timestamp \<Rightarrow> foreign list list \<Rightarrow> turn
    \<Rightarrow> (halt + unit) \<times> turn" where
  "stream_messages_shared d prompt now others t =
     (if budget t = Some 0 then (Inl Disconnected, t)
      else
        (case yield \<lparr>role = User, timestamp = now, content = prompt\<rparr> t of
           (Inl h, t1) \<Rightarrow> (Inl h, t1)
         | (Inr _, t1) \<Rightarrow>
             (case get_messages (decode d) (database (proc t1)) of
                Inl e \<Rightarrow> (Inl (Raised e), t1)
              | Inr messages \<Rightarrow>
                  (let run = agent d prompt messages in
                   (case run_stream_shared d (result_timestamp run) (weave (steps run) others)
                           (clear_tool_events t1) of
                      (Inl h, t2) \<Rightarrow> (Inl h, t2)
                    | (Inr _, t2) \<Rightarrow>
                        (case yield_each (tool_events (proc t2)) t2 of
                           (Inl h, t3) \<Rightarrow> (Inl h, t3)
                         | (Inr _, t3) \<Rightarrow>
                             (Inr (), persist (new_messages_json run) (clear_tool_events t3))))))))"

definition post_chat_shared :: "deps \<Rightarrow> py_str \<Rightarrow> timestamp \<Rightarrow> nat option \<Rightarrow> foreign list list
    \<Rightarrow> process \<Rightarrow> (halt + unit) \<times> turn" where
  "post_chat_shared d prompt now consumer others p =
     stream_messages_shared d prompt now others \<lparr>budget = consumer, trace = [], proc = p\<rparr>"

section \<open>Observing a turn\<close>

text \<open>The items a trace yielded, and the blobs it handed to \<open>add_messages\<close>, in order.\<close>

fun emitted :: "effect list \<Rightarrow> ChatMessage list" where
  "emitted [] = []"
| "emitted (Emit m # es) = m # emitted es"
| "emitted (Persist b # es) = emitted es"

fun persisted :: "effect list \<Rightarrow> bytes list" where
  "persisted [] = []"
| "persisted (Emit m # es) = persisted es"
| "persisted (Persist b # es) = b # persisted es"

text \<open>
  The tool events one call of \<open>read_file\<close> appends to the buffer, in a process whose
  applied sandbox is \<open>sb\<close>.
\<close>

definition accumulated :: "deps \<Rightarrow> CapabilitySet option \<Rightarrow> timestamp \<Rightarrow> py_str
    \<Rightarrow> ChatMessage list" where
  "accumulated d sb now path =
     tool_events (snd (read_file (read_text d sb) now path (initial_process (connect None))))"

text \<open>
  The order of events as the spec words it: the tool events accumulated since the last
  fragment, in their original order, then the model message of the fragment with the
  cumulative text; the tool events accumulated after the last fragment come last.
\<close>

fun spec_events :: "deps \<Rightarrow> CapabilitySet option \<Rightarrow> timestamp \<Rightarrow> agent_step list
    \<Rightarrow> ChatMessage list" where
  "spec_events d sb rts [] = []"
| "spec_events d sb rts (ToolCall path now # ss) =
     accumulated d sb now path @ spec_events d sb rts ss"
| "spec_events d sb rts (TextChunk body # ss) =
     \<lparr>role = Model, timestamp = rts, content = body\<rparr> # spec_events d sb rts ss"
| "spec_events d sb rts (AgentRaise e # ss) = spec_events d sb rts ss"

text \<open>
  The events of a whole turn in that order: the user message with the prompt and the
  current time first, then the events of the agent run on the replayed history.
\<close>

definition spec_turn :: "deps \<Rightarrow> CapabilitySet option \<Rightarrow> py_str \<Rightarrow> timestamp \<Rightarrow> table
    \<Rightarrow> ChatMessage list" where
  "spec_turn d sb prompt now db =
     \<lparr>role = User, timestamp = now, content = prompt\<rparr> #
     (case get_messages (decode d) db of
        Inl e \<Rightarrow> []
      | Inr messages \<Rightarrow>
          (let run = agent d prompt messages
           in spec_events d sb (result_timestamp run) (steps run)))"

text \<open>A step of the agent that does not raise.\<close>

fun step_ok :: "deps \<Rightarrow> CapabilitySet option \<Rightarrow> agent_step \<Rightarrow> bool" where
  "step_ok d sb (ToolCall path now) =
     (case read_text d sb path of Inr body \<Rightarrow> True | Inl exc \<Rightarrow> is_OSError exc)"
| "step_ok d sb (TextChunk body) = True"
| "step_ok d sb (AgentRaise e) = False"

text \<open>
  The scenarios of the spec: the sandbox allows only \<open>/sandbox\<close>, where \<open>notes.txt\<close>
  holds "hello"; in one turn the agent calls the tool on \<open>/etc/passwd\<close> and on
  \<open>/sandbox/notes.txt\<close> and then gives its text. The answers are those of the scenario
  whatever the process has applied.
\<close>

definition scenario_read_text :: "py_str \<Rightarrow> py_exc + py_str" where
  "scenario_read_text path =
     (if path = lit ''/sandbox/notes.txt'' then Inr (lit ''hello'') else Inl PermissionError)"

definition scenario_deps :: deps where
  "scenario_deps =
     \<lparr>read_text = (\<lambda>sb. scenario_read_text),
      decode = (\<lambda>blob. Some []),
      repr = (\<lambda>m. []),
      agent = (\<lambda>prompt messages.
         \<lparr>steps = [ToolCall (lit ''/etc/passwd'') 3, ToolCall (lit ''/sandbox/notes.txt'') 4,
                   TextChunk (lit ''Hi'')],
          result_timestamp = 5,
          new_messages_json = ''turn''\<rparr>)\<rparr>"

text \<open>
  The dependencies \<open>d\<close> with an operating system that answers every read as in a process
  that has applied \<open>caps\<close>.
\<close>

definition enforcing :: "CapabilitySet \<Rightarrow> deps \<Rightarrow> deps" where
  "enforcing caps d = d\<lparr>read_text := (\<lambda>sb. read_text d (Some caps))\<rparr>"

text \<open>
  A process whose only file is the private key \<open>/root/.ssh/id_rsa\<close>, under the operating
  system that enforces the applied set; the agent asks for the key and then gives its
  text.
\<close>

definition home_files :: "py_str \<Rightarrow> py_exc + py_str" where
  "home_files path =
     (if path = lit ''/root/.ssh/id_rsa'' then Inr (lit ''KEY'') else Inl FileNotFoundError)"

definition kernel_deps :: deps where
  "kernel_deps =
     \<lparr>read_text = enforced home_files,
      decode = (\<lambda>blob. Some []),
      repr = (\<lambda>m. []),
      agent = (\<lambda>prompt messages.
         \<lparr>steps = [ToolCall (lit ''/root/.ssh/id_rsa'') 3, TextChunk (lit ''Hi'')],
          result_timestamp = 5,
          new_messages_json = ''turn''\<rparr>)\<rparr>"

text \<open>
  Answers of the operating system to a read, as examples: \<open>~nosuchuser/x\<close>, whose home
  directory \<open>expanduser\<close> cannot determine; a path below a regular file; a directory; a
  file of 5000 times the letter U+00E9; and a readable file \<open>/tmp/x\<close> that holds the
  text of the denial message. \<open>no_repr\<close> formats every message to the empty text.
\<close>

definition unknown_home :: "py_str \<Rightarrow> py_exc + py_str" where
  "unknown_home path = Inl (RuntimeError (lit ''Could not determine home directory.''))"

definition not_a_directory :: "py_str \<Rightarrow> py_exc + py_str" where
  "not_a_directory path = Inl (OtherOSError (lit ''[Errno 20] Not a directory''))"

definition is_a_directory :: "py_str \<Rightarrow> py_exc + py_str" where
  "is_a_directory path = Inl IsADirectoryError"

definition accented_file :: "py_str \<Rightarrow> py_exc + py_str" where
  "accented_file path = Inr (replicate 5000 233)"

definition blocked_text_file :: "py_str \<Rightarrow> py_exc + py_str" where
  "blocked_text_file path = Inr (lit ''BLOCKED by nono sandbox: permission denied reading /tmp/x'')"

definition no_repr :: "ModelMessage \<Rightarrow> py_str" where
  "no_repr m = []"

text \<open>An environment for \<open>_apply_sandbox\<close>, as an example.\<close>

definition example_environment :: environment where
  "example_environment =
     \<lparr>APP_DIR = lit ''/srv/app/src/chat_app'',
      python_prefix = lit ''/usr/lib'',
      site_packages = [lit ''/srv/app/.venv/lib/python3.12/site-packages''],
      interpreter_prefix = lit ''/usr'',
      cwd = lit ''/srv/app''\<rparr>"

section \<open>The conversation store replays what was appended\<close>

lemma fold_max_ge: "(s::nat) \<le> fold max xs s"
  by (induction xs arbitrary: s) (auto intro: order_trans[OF max.cobounded2])

lemma fold_max_mem: "(i::nat) \<in> set xs \<Longrightarrow> i \<le> fold max xs s"
proof (induction xs arbitrary: s)
  case Nil
  then show ?case by simp
next
  case (Cons x xs)
  show ?case
  proof (cases "i = x")
    case True
    have "x \<le> max x s" by simp
    also have "\<dots> \<le> fold max xs (max x s)" by (rule fold_max_ge)
    finally show ?thesis using True by simp
  next
    case False
    with Cons show ?thesis by simp
  qed
qed

lemma next_id_fresh: "i \<in> fst ` set (rows t) \<Longrightarrow> i < next_id t"
  unfolding next_id_def using fold_max_mem[of i "map fst (rows t)" "seq t"] by auto

lemma insort_key_last: "\<forall>y \<in> set ys. f y < f x \<Longrightarrow> insort_key f x ys = ys @ [x]"
  by (induction ys) auto

text \<open>A new row gets an id above every id in the table, so \<open>ORDER BY id\<close> lists it last.\<close>

lemma select_add_messages: "select_message_list (add_messages b t) = select_message_list t @ [b]"
proof -
  have "\<forall>y \<in> set (sort_key fst (rows t)). fst y < fst (next_id t, b)"
    using next_id_fresh[of _ t] by auto
  then have "insort_key fst (next_id t, b) (sort_key fst (rows t))
             = sort_key fst (rows t) @ [(next_id t, b)]"
    by (rule insort_key_last)
  then show ?thesis
    by (simp add: select_message_list_def add_messages_def)
qed

lemma select_fold_add: "select_message_list (fold add_messages bs t) = select_message_list t @ bs"
  by (induction bs arbitrary: t) (simp_all add: select_add_messages)

lemma extend_rows_those:
  "extend_rows dec rs acc =
     (case those (map dec rs) of
        None \<Rightarrow> Inl ValidationError
      | Some mss \<Rightarrow> Inr (acc @ concat mss))"
  by (induction rs arbitrary: acc) (auto split: option.splits)

text \<open>
  Claim C5. On an empty store \<open>get_messages\<close> returns the empty sequence. After any
  sequence of \<open>add_messages\<close> calls on the empty store, the rows read back are exactly
  the appended blobs, unchanged and in insertion order, and \<open>get_messages\<close> returns
  the concatenation of the message sequences the blobs deserialise to (it raises the
  validation error when one of them does not deserialise).
\<close>

theorem store_round_trip:
  "get_messages dec (connect None) = Inr []
   \<and> select_message_list (fold add_messages blobs (connect None)) = blobs
   \<and> get_messages dec (fold add_messages blobs (connect None)) =
       (case those (map dec blobs) of
          None \<Rightarrow> Inl ValidationError
        | Some turns \<Rightarrow> Inr (concat turns))"
proof -
  have e: "select_message_list (connect None) = []"
    by (simp add: select_message_list_def connect_def)
  have s: "select_message_list (fold add_messages blobs (connect None)) = blobs"
    by (simp add: select_fold_add e)
  show ?thesis
    by (simp add: get_messages_def s e extend_rows_those split: option.splits)
qed

section \<open>Converting messages for the frontend\<close>

lemma convert_all_fails:
  "isl (to_chat_message rp m) \<Longrightarrow> isl (convert_all rp (pre @ m # post))"
  by (induction pre) (auto split: sum.splits simp del: to_chat_message.simps)

lemma to_chat_message_tool_part:
  "parts m = ToolCallPart a b # rest \<or> parts m = ToolReturnPart a b # rest
     \<Longrightarrow> to_chat_message rp m = Inl (unexpected rp m)"
  by (cases m) auto

text \<open>
  Claim C9. On a message with at least one part, \<open>to_chat_message\<close> looks at the first
  part only. A response whose first part is a text part is rendered with that part's
  content. The result for \<open>p # rest\<close> is the result for \<open>p\<close> alone (the text of the
  error formats the message it was raised for). A request whose first part is not a
  user prompt with string content, and a response whose first part is not a text
  part, raise whatever the later parts are. Hence \<open>get_chat\<close> fails on a history
  that contains a message whose first part is a tool call or a tool return.
\<close>

theorem first_part_decides:
  "to_chat_message rp (ModelResponse (TextPart s # rest) ts)
     = Inr \<lparr>role = Model, timestamp = ts, content = s\<rparr>
   \<and> to_chat_message rp (ModelRequest (p # rest)) =
        (case to_chat_message rp (ModelRequest [p]) of
           Inr c \<Rightarrow> Inr c
         | Inl _ \<Rightarrow> Inl (unexpected rp (ModelRequest (p # rest))))
   \<and> to_chat_message rp (ModelResponse (p # rest) ts) =
        (case to_chat_message rp (ModelResponse [p] ts) of
           Inr c \<Rightarrow> Inr c
         | Inl _ \<Rightarrow> Inl (unexpected rp (ModelResponse (p # rest) ts)))
   \<and> ((\<forall>s t. p \<noteq> UserPromptPart (StrContent s) t) \<longrightarrow>
        to_chat_message rp (ModelRequest (p # rest)) = Inl (unexpected rp (ModelRequest (p # rest))))
   \<and> ((\<forall>s. p \<noteq> TextPart s) \<longrightarrow>
        to_chat_message rp (ModelResponse (p # rest) ts)
          = Inl (unexpected rp (ModelResponse (p # rest) ts)))
   \<and> (get_messages dec db = Inr (pre @ m # post)
        \<and> (parts m = ToolCallPart a b # tl_parts \<or> parts m = ToolReturnPart a b # tl_parts)
        \<longrightarrow> isl (get_chat dec rp db))"
proof -
  have 1: "to_chat_message rp (ModelResponse (TextPart s # rest) ts)
             = Inr \<lparr>role = Model, timestamp = ts, content = s\<rparr>"
    by simp
  have 2: "to_chat_message rp (ModelRequest (p # rest)) =
        (case to_chat_message rp (ModelRequest [p]) of
           Inr c \<Rightarrow> Inr c
         | Inl _ \<Rightarrow> Inl (unexpected rp (ModelRequest (p # rest))))"
    by (simp split: part.splits user_content.splits)
  have 3: "to_chat_message rp (ModelResponse (p # rest) ts) =
        (case to_chat_message rp (ModelResponse [p] ts) of
           Inr c \<Rightarrow> Inr c
         | Inl _ \<Rightarrow> Inl (unexpected rp (ModelResponse (p # rest) ts)))"
    by (simp split: part.splits)
  have 4: "(\<forall>s t. p \<noteq> UserPromptPart (StrContent s) t) \<longrightarrow>
        to_chat_message rp (ModelRequest (p # rest)) = Inl (unexpected rp (ModelRequest (p # rest)))"
    by (simp split: part.splits user_content.splits)
  have 5: "(\<forall>s. p \<noteq> TextPart s) \<longrightarrow>
        to_chat_message rp (ModelResponse (p # rest) ts)
          = Inl (unexpected rp (ModelResponse (p # rest) ts))"
    by (simp split: part.splits)
  have 6: "get_messages dec db = Inr (pre @ m # post)
        \<and> (parts m = ToolCallPart a b # tl_parts \<or> parts m = ToolReturnPart a b # tl_parts)
        \<longrightarrow> isl (get_chat dec rp db)"
  proof
    assume h: "get_messages dec db = Inr (pre @ m # post)
        \<and> (parts m = ToolCallPart a b # tl_parts \<or> parts m = ToolReturnPart a b # tl_parts)"
    then have "to_chat_message rp m = Inl (unexpected rp m)"
      using to_chat_message_tool_part[of m a b tl_parts rp] by blast
    then have "isl (convert_all rp (pre @ m # post))"
      using convert_all_fails[of rp m pre post] by simp
    with h show "isl (get_chat dec rp db)"
      by (simp add: get_chat_def)
  qed
  from 1 2 3 4 5 6 show ?thesis by blast
qed

text \<open>
  The theorem at a turn as pydantic-ai stores it when the model called the tool: the
  response starts with a tool call and has a text part after it.
\<close>

theorem first_part_decides_witness:
  "to_chat_message (\<lambda>m. []) (ModelRequest [ToolCallPart (lit ''read_file'') (lit ''/etc/hosts''),
        TextPart (lit ''ok'')])
     = Inl (unexpected (\<lambda>m. []) (ModelRequest [ToolCallPart (lit ''read_file'') (lit ''/etc/hosts''),
        TextPart (lit ''ok'')]))
   \<and> to_chat_message (\<lambda>m. []) (ModelResponse [ToolCallPart (lit ''read_file'') (lit ''/etc/hosts''),
        TextPart (lit ''ok'')] 20)
     = Inl (unexpected (\<lambda>m. []) (ModelResponse [ToolCallPart (lit ''read_file'') (lit ''/etc/hosts''),
        TextPart (lit ''ok'')] 20))
   \<and> isl (get_chat
        (\<lambda>b. Some [ModelRequest [UserPromptPart (StrContent (lit ''hi'')) 10],
                   ModelResponse [ToolCallPart (lit ''read_file'') (lit ''/etc/hosts''),
                                  TextPart (lit ''ok'')] 20])
        (\<lambda>m. []) (add_messages ''turn'' (connect None)))"
proof -
  have g: "get_messages
        (\<lambda>b. Some [ModelRequest [UserPromptPart (StrContent (lit ''hi'')) 10],
                   ModelResponse [ToolCallPart (lit ''read_file'') (lit ''/etc/hosts''),
                                  TextPart (lit ''ok'')] 20])
        (add_messages ''turn'' (connect None))
      = Inr ([ModelRequest [UserPromptPart (StrContent (lit ''hi'')) 10]]
             @ ModelResponse [ToolCallPart (lit ''read_file'') (lit ''/etc/hosts''),
                              TextPart (lit ''ok'')] 20 # [])"
    by (simp add: get_messages_def select_message_list_def add_messages_def connect_def)
  have h4: "\<forall>s t. ToolCallPart (lit ''read_file'') (lit ''/etc/hosts'') \<noteq> UserPromptPart (StrContent s) t"
    by simp
  have h5: "\<forall>s. ToolCallPart (lit ''read_file'') (lit ''/etc/hosts'') \<noteq> TextPart s"
    by simp
  have h6: "parts (ModelResponse [ToolCallPart (lit ''read_file'') (lit ''/etc/hosts''),
                                  TextPart (lit ''ok'')] 20)
            = ToolCallPart (lit ''read_file'') (lit ''/etc/hosts'') # [TextPart (lit ''ok'')]"
    by simp
  show ?thesis
    using g h4 h5 h6 first_part_decides
      [where rp = "\<lambda>m. []" and p = "ToolCallPart (lit ''read_file'') (lit ''/etc/hosts'')"
         and rest = "[TextPart (lit ''ok'')]" and ts = 20
         and dec = "\<lambda>b. Some [ModelRequest [UserPromptPart (StrContent (lit ''hi'')) 10],
                     ModelResponse [ToolCallPart (lit ''read_file'') (lit ''/etc/hosts''),
                                    TextPart (lit ''ok'')] 20]"
         and db = "add_messages ''turn'' (connect None)"
         and pre = "[ModelRequest [UserPromptPart (StrContent (lit ''hi'')) 10]]"
         and m = "ModelResponse [ToolCallPart (lit ''read_file'') (lit ''/etc/hosts''),
                          TextPart (lit ''ok'')] 20"
         and post = "[]" and a = "lit ''read_file''" and b = "lit ''/etc/hosts''"
         and tl_parts = "[TextPart (lit ''ok'')]"]
    by blast
qed

text \<open>
  Claim C8. A response without parts is neither a request starting with a user prompt
  nor a response starting with a text part, and \<open>to_chat_message\<close> raises
  \<open>IndexError\<close> on it, from \<open>m.parts[0]\<close>, not the unexpected-model-behaviour error.
\<close>

theorem empty_parts_index_error:
  "to_chat_message no_repr (ModelResponse [] 0) = Inl IndexError
   \<and> to_chat_message no_repr (ModelResponse [] 0)
       \<noteq> Inl (unexpected no_repr (ModelResponse [] 0))"
  by (simp add: unexpected_def)

section \<open>The outcomes of the file tool\<close>

lemma lit_append: "lit (a @ b) = lit a @ lit b"
  by (simp add: lit_def)

lemma mentions_permission_denied:
  "sublist (lit ''permission denied'')
     (lit ''read_file('' @ path @ lit '') -- BLOCKED by nono sandbox (permission denied)'')"
proof -
  have "lit '') -- BLOCKED by nono sandbox (permission denied)''
        = lit '') -- BLOCKED by nono sandbox ('' @ lit ''permission denied'' @ lit '')''"
    by (simp add: lit_def)
  then have "lit ''read_file('' @ path @ lit '') -- BLOCKED by nono sandbox (permission denied)''
        = (lit ''read_file('' @ path @ lit '') -- BLOCKED by nono sandbox ('')
          @ lit ''permission denied'' @ lit '')''"
    by simp
  then show ?thesis
    unfolding sublist_def by blast
qed

lemma read_file_ok:
  "rt path = Inr body \<Longrightarrow>
   read_file rt now path p =
     (Inr (take 4096 body),
      p\<lparr>log_records := log_records p @
           [(INFO, lit ''ALLOWED  read_file('' @ path @ lit '') -> ''
                   @ str_of_nat (length (take 4096 body)) @ lit '' bytes'')],
        tool_events := tool_events p @
           [tool_event now (lit ''read_file('' @ path @ lit '') -- ALLOWED (''
                   @ str_of_nat (length (take 4096 body)) @ lit '' bytes read)'')]\<rparr>)"
  by (simp add: read_file_def Let_def)

lemma read_file_denied:
  "rt path = Inl PermissionError \<Longrightarrow>
   read_file rt now path p =
     (Inr (lit ''BLOCKED by nono sandbox: permission denied reading '' @ path),
      p\<lparr>log_records := log_records p @
           [(WARNING, lit ''BLOCKED  read_file('' @ path
                   @ lit '') -> PermissionError (sandbox deny)'')],
        tool_events := tool_events p @
           [tool_event now (lit ''read_file('' @ path
                   @ lit '') -- BLOCKED by nono sandbox (permission denied)'')]\<rparr>)"
  by (simp add: read_file_def)

lemma read_file_not_found:
  "rt path = Inl FileNotFoundError \<Longrightarrow>
   read_file rt now path p =
     (Inr (lit ''File not found: '' @ path),
      p\<lparr>log_records := log_records p @
           [(INFO, lit ''NOTFOUND read_file('' @ path @ lit '') -> FileNotFoundError'')],
        tool_events := tool_events p @
           [tool_event now (lit ''read_file('' @ path @ lit '') -- file not found'')]\<rparr>)"
  by (simp add: read_file_def)

lemma read_file_directory:
  "rt path = Inl IsADirectoryError \<Longrightarrow>
   read_file rt now path p = (Inr (lit ''Path is a directory, not a file: '' @ path), p)"
  by (simp add: read_file_def)

lemma read_file_os_error:
  "rt path = Inl (OtherOSError e) \<Longrightarrow>
   read_file rt now path p = (Inr (lit ''OS error reading '' @ path @ lit '': '' @ e), p)"
  by (simp add: read_file_def)

lemma read_file_propagates:
  "rt path = Inl e \<Longrightarrow> \<not> is_OSError e \<Longrightarrow> read_file rt now path p = (Inl e, p)"
  by (cases e) (simp_all add: read_file_def)

lemma read_file_returns:
  "(case rt path of Inr body \<Rightarrow> True | Inl exc \<Rightarrow> is_OSError exc)
     \<Longrightarrow> \<exists>s. fst (read_file rt now path p) = Inr s"
proof (cases "rt path")
  case (Inr body)
  then show ?thesis by (simp add: read_file_ok)
next
  case (Inl exc)
  assume "case rt path of Inr body \<Rightarrow> True | Inl exc \<Rightarrow> is_OSError exc"
  with Inl show ?thesis
    by (cases exc)
       (simp_all add: read_file_denied read_file_not_found read_file_directory read_file_os_error)
qed

lemma read_file_frame:
  "sandbox (snd (read_file rt now path p)) = sandbox p
   \<and> apply_calls (snd (read_file rt now path p)) = apply_calls p
   \<and> database (snd (read_file rt now path p)) = database p"
  by (simp add: read_file_def Let_def split: sum.splits py_exc.splits)

lemma read_file_sandbox_update:
  "read_file rt now path (p\<lparr>sandbox := caps\<rparr>)
     = (fst (read_file rt now path p), (snd (read_file rt now path p))\<lparr>sandbox := caps\<rparr>)"
  by (simp add: read_file_def Let_def split: sum.splits py_exc.splits)

lemma read_file_appends:
  "tool_events (snd (read_file (read_text d sb) now path p))
     = tool_events p @ accumulated d sb now path"
  by (simp add: accumulated_def read_file_def Let_def initial_process_def
           split: sum.splits py_exc.splits)

lemma failure_strings_distinct:
  "distinct [lit ''BLOCKED by nono sandbox: permission denied reading '' @ p1,
             lit ''File not found: '' @ p2,
             lit ''Path is a directory, not a file: '' @ p3,
             lit ''OS error reading '' @ p4 @ lit '': '' @ e]"
  by (simp add: lit_def)

text \<open>
  Claim C2, amended. Whenever the read succeeds or fails with an \<open>OSError\<close>,
  \<open>read_file\<close> returns a string and does not raise. A permission denial returns the
  message that the sandbox blocked the read, naming the path, and appends a tool
  event of role \<open>tool\<close> whose content contains "permission denied"; a missing path
  returns the "not found" message; a directory returns its descriptive message; any
  other \<open>OSError\<close> returns the generic message with the cause; success returns the
  content cut to 4096. The four failure strings are pairwise different.
\<close>

theorem read_file_returns_outcome:
  "((case rt path of Inr body \<Rightarrow> True | Inl exc \<Rightarrow> is_OSError exc)
      \<longrightarrow> (\<exists>s. fst (read_file rt now path p) = Inr s))
   \<and> (rt path = Inl PermissionError \<longrightarrow>
        fst (read_file rt now path p)
          = Inr (lit ''BLOCKED by nono sandbox: permission denied reading '' @ path)
        \<and> (\<exists>evt. tool_events (snd (read_file rt now path p)) = tool_events p @ [evt]
              \<and> role evt = Tool \<and> sublist (lit ''permission denied'') (content evt)))
   \<and> (rt path = Inl FileNotFoundError \<longrightarrow>
        fst (read_file rt now path p) = Inr (lit ''File not found: '' @ path))
   \<and> (rt path = Inl IsADirectoryError \<longrightarrow>
        fst (read_file rt now path p) = Inr (lit ''Path is a directory, not a file: '' @ path))
   \<and> (rt path = Inl (OtherOSError e) \<longrightarrow>
        fst (read_file rt now path p) = Inr (lit ''OS error reading '' @ path @ lit '': '' @ e))
   \<and> (rt path = Inr body \<longrightarrow> fst (read_file rt now path p) = Inr (take 4096 body))
   \<and> distinct [lit ''BLOCKED by nono sandbox: permission denied reading '' @ path,
               lit ''File not found: '' @ path,
               lit ''Path is a directory, not a file: '' @ path,
               lit ''OS error reading '' @ path @ lit '': '' @ e]"
proof -
  have 1: "(case rt path of Inr body \<Rightarrow> True | Inl exc \<Rightarrow> is_OSError exc)
      \<longrightarrow> (\<exists>s. fst (read_file rt now path p) = Inr s)"
  proof (cases "rt path")
    case (Inr body)
    then show ?thesis by (simp add: read_file_ok)
  next
    case (Inl exc)
    then show ?thesis
      by (cases exc)
         (simp_all add: read_file_denied read_file_not_found read_file_directory read_file_os_error)
  qed
  have 2: "rt path = Inl PermissionError \<longrightarrow>
        fst (read_file rt now path p)
          = Inr (lit ''BLOCKED by nono sandbox: permission denied reading '' @ path)
        \<and> (\<exists>evt. tool_events (snd (read_file rt now path p)) = tool_events p @ [evt]
              \<and> role evt = Tool \<and> sublist (lit ''permission denied'') (content evt))"
    using mentions_permission_denied[of path]
    by (simp add: read_file_denied tool_event_def)
  have 3: "rt path = Inl FileNotFoundError \<longrightarrow>
        fst (read_file rt now path p) = Inr (lit ''File not found: '' @ path)"
    by (simp add: read_file_not_found)
  have 4: "rt path = Inl IsADirectoryError \<longrightarrow>
        fst (read_file rt now path p) = Inr (lit ''Path is a directory, not a file: '' @ path)"
    by (simp add: read_file_directory)
  have 5: "rt path = Inl (OtherOSError e) \<longrightarrow>
        fst (read_file rt now path p) = Inr (lit ''OS error reading '' @ path @ lit '': '' @ e)"
    by (simp add: read_file_os_error)
  have 6: "rt path = Inr body \<longrightarrow> fst (read_file rt now path p) = Inr (take 4096 body)"
    by (simp add: read_file_ok)
  from 1 2 3 4 5 6 failure_strings_distinct[of path path path path e] show ?thesis
    by blast
qed

theorem read_file_returns_outcome_witness:
  "fst (read_file (\<lambda>path. Inl PermissionError) 0 (lit ''/etc/passwd'') (initial_process (connect None)))
     = Inr (lit ''BLOCKED by nono sandbox: permission denied reading '' @ lit ''/etc/passwd'')
   \<and> fst (read_file (\<lambda>path. Inl FileNotFoundError) 0 (lit ''/sandbox/none'') (initial_process (connect None)))
     = Inr (lit ''File not found: '' @ lit ''/sandbox/none'')
   \<and> fst (read_file (\<lambda>path. Inl IsADirectoryError) 0 (lit ''/sandbox'') (initial_process (connect None)))
     = Inr (lit ''Path is a directory, not a file: '' @ lit ''/sandbox'')
   \<and> fst (read_file (\<lambda>path. Inl (OtherOSError (lit ''[Errno 20] Not a directory''))) 0
          (lit ''/sandbox/notes.txt/x'') (initial_process (connect None)))
     = Inr (lit ''OS error reading '' @ lit ''/sandbox/notes.txt/x'' @ lit '': ''
            @ lit ''[Errno 20] Not a directory'')
   \<and> fst (read_file (\<lambda>path. Inr (lit ''hello'')) 0 (lit ''/sandbox/notes.txt'')
          (initial_process (connect None)))
     = Inr (take 4096 (lit ''hello''))"
proof -
  have a: "fst (read_file (\<lambda>path. Inl PermissionError) 0 (lit ''/etc/passwd'') (initial_process (connect None)))
     = Inr (lit ''BLOCKED by nono sandbox: permission denied reading '' @ lit ''/etc/passwd'')"
    using read_file_returns_outcome
      [where rt = "\<lambda>path. Inl PermissionError" and path = "lit ''/etc/passwd''" and now = 0
         and p = "initial_process (connect None)"]
    by simp
  have b: "fst (read_file (\<lambda>path. Inl FileNotFoundError) 0 (lit ''/sandbox/none'') (initial_process (connect None)))
     = Inr (lit ''File not found: '' @ lit ''/sandbox/none'')"
    using read_file_returns_outcome
      [where rt = "\<lambda>path. Inl FileNotFoundError" and path = "lit ''/sandbox/none''" and now = 0
         and p = "initial_process (connect None)"]
    by simp
  have c: "fst (read_file (\<lambda>path. Inl IsADirectoryError) 0 (lit ''/sandbox'') (initial_process (connect None)))
     = Inr (lit ''Path is a directory, not a file: '' @ lit ''/sandbox'')"
    using read_file_returns_outcome
      [where rt = "\<lambda>path. Inl IsADirectoryError" and path = "lit ''/sandbox''" and now = 0
         and p = "initial_process (connect None)"]
    by simp
  have d: "fst (read_file (\<lambda>path. Inl (OtherOSError (lit ''[Errno 20] Not a directory''))) 0
          (lit ''/sandbox/notes.txt/x'') (initial_process (connect None)))
     = Inr (lit ''OS error reading '' @ lit ''/sandbox/notes.txt/x'' @ lit '': ''
            @ lit ''[Errno 20] Not a directory'')"
    using read_file_returns_outcome
      [where rt = "\<lambda>path. Inl (OtherOSError (lit ''[Errno 20] Not a directory''))"
         and path = "lit ''/sandbox/notes.txt/x''" and now = 0
         and e = "lit ''[Errno 20] Not a directory''"
         and p = "initial_process (connect None)"]
    by simp
  have e: "fst (read_file (\<lambda>path. Inr (lit ''hello'')) 0 (lit ''/sandbox/notes.txt'')
          (initial_process (connect None)))
     = Inr (take 4096 (lit ''hello''))"
    using read_file_returns_outcome
      [where rt = "\<lambda>path. Inr (lit ''hello'')" and path = "lit ''/sandbox/notes.txt''" and now = 0
         and body = "lit ''hello''" and p = "initial_process (connect None)"]
    by simp
  from a b c d e show ?thesis by blast
qed

text \<open>
  Claim C2 as stated fails: \<open>Path('~nosuchuser/x').expanduser()\<close> raises
  \<open>RuntimeError\<close>, which no \<open>except\<close> clause of \<open>read_file\<close> matches, so it reaches
  the caller.
\<close>

theorem read_file_raises_counterexample:
  "fst (read_file unknown_home 0 (lit ''~nosuchuser/x'') (initial_process (connect None)))
     = Inl (RuntimeError (lit ''Could not determine home directory.''))"
  by (simp add: read_file_def unknown_home_def)

text \<open>
  Claim C7, amended. Every invocation of \<open>read_file\<close> that ends in success, in a
  permission denial or in not-found writes one log record and appends one record of
  role \<open>tool\<close>, stamped with the current time, to the tool-event buffer; the
  directory case appends no event.
\<close>

theorem read_file_reports:
  "((\<exists>body. rt path = Inr body) \<or> rt path = Inl PermissionError \<or> rt path = Inl FileNotFoundError
      \<longrightarrow> (\<exists>entry evt.
             log_records (snd (read_file rt now path p)) = log_records p @ [entry]
             \<and> tool_events (snd (read_file rt now path p)) = tool_events p @ [evt]
             \<and> role evt = Tool \<and> timestamp evt = now))
   \<and> (rt path = Inl IsADirectoryError
      \<longrightarrow> tool_events (snd (read_file rt now path p)) = tool_events p)"
proof -
  have 1: "(\<exists>body. rt path = Inr body) \<Longrightarrow> \<exists>entry evt.
             log_records (snd (read_file rt now path p)) = log_records p @ [entry]
             \<and> tool_events (snd (read_file rt now path p)) = tool_events p @ [evt]
             \<and> role evt = Tool \<and> timestamp evt = now"
    by (auto simp: read_file_ok tool_event_def)
  have 2: "rt path = Inl PermissionError \<Longrightarrow> \<exists>entry evt.
             log_records (snd (read_file rt now path p)) = log_records p @ [entry]
             \<and> tool_events (snd (read_file rt now path p)) = tool_events p @ [evt]
             \<and> role evt = Tool \<and> timestamp evt = now"
    by (simp add: read_file_denied tool_event_def)
  have 3: "rt path = Inl FileNotFoundError \<Longrightarrow> \<exists>entry evt.
             log_records (snd (read_file rt now path p)) = log_records p @ [entry]
             \<and> tool_events (snd (read_file rt now path p)) = tool_events p @ [evt]
             \<and> role evt = Tool \<and> timestamp evt = now"
    by (simp add: read_file_not_found tool_event_def)
  have 4: "rt path = Inl IsADirectoryError
      \<longrightarrow> tool_events (snd (read_file rt now path p)) = tool_events p"
    by (simp add: read_file_directory)
  from 1 2 3 4 show ?thesis by blast
qed

theorem read_file_reports_witness:
  "(\<exists>entry evt.
      log_records (snd (read_file (\<lambda>path. Inl PermissionError) 7 (lit ''/etc/passwd'')
                         (initial_process (connect None)))) = [entry]
      \<and> tool_events (snd (read_file (\<lambda>path. Inl PermissionError) 7 (lit ''/etc/passwd'')
                         (initial_process (connect None)))) = [evt]
      \<and> role evt = Tool \<and> timestamp evt = 7)
   \<and> tool_events (snd (read_file (\<lambda>path. Inl IsADirectoryError) 7 (lit ''/tmp'')
                         (initial_process (connect None)))) = []"
  using read_file_reports
      [where rt = "\<lambda>path. Inl PermissionError" and path = "lit ''/etc/passwd''" and now = 7
         and p = "initial_process (connect None)"]
    read_file_reports
      [where rt = "\<lambda>path. Inl IsADirectoryError" and path = "lit ''/tmp''" and now = 7
         and p = "initial_process (connect None)"]
  by (simp add: initial_process_def)

text \<open>
  Claim C7 as stated fails: on any other \<open>OSError\<close> (here \<open>NotADirectoryError\<close>)
  \<open>read_file\<close> neither logs nor appends an event, and on a directory it does not log.
\<close>

theorem read_file_silent_counterexample:
  "log_records (snd (read_file not_a_directory 0 (lit ''/etc/hosts/x'')
                      (initial_process (connect None)))) = []
   \<and> tool_events (snd (read_file not_a_directory 0 (lit ''/etc/hosts/x'')
                      (initial_process (connect None)))) = []
   \<and> log_records (snd (read_file is_a_directory 0 (lit ''/tmp'')
                      (initial_process (connect None)))) = []"
  by (simp add: read_file_def initial_process_def not_a_directory_def is_a_directory_def)

text \<open>
  Claim C6. A file of 5000 times the letter U+00E9, which is 10000 bytes of UTF-8:
  \<open>[:4096]\<close> and \<open>len\<close> count code points, so the content returned is 4096 code
  points, 8192 bytes, and the event says "4096 bytes read".
\<close>

theorem read_file_counts_code_points:
  "fst (read_file accented_file 0 (lit ''/sandbox/notes.txt'')
          (initial_process (connect None))) = Inr (replicate 4096 233)
   \<and> utf8_len (replicate 4096 233) = 8192
   \<and> map content (tool_events (snd (read_file accented_file 0
          (lit ''/sandbox/notes.txt'') (initial_process (connect None)))))
     = [lit ''read_file(/sandbox/notes.txt) -- ALLOWED (4096 bytes read)'']"
  by (simp add: read_file_def initial_process_def tool_event_def utf8_len_def utf8_width_def
        str_of_nat_def lit_def sum_list_replicate accented_file_def)

section \<open>What one turn does\<close>

lemma emitted_append: "emitted (xs @ ys) = emitted xs @ emitted ys"
  by (induction xs rule: emitted.induct) simp_all

lemma persisted_append: "persisted (xs @ ys) = persisted xs @ persisted ys"
  by (induction xs rule: persisted.induct) simp_all

lemma emitted_map_Emit: "emitted (map Emit es) = es"
  by (induction es) simp_all

lemma persisted_map_Emit: "persisted (map Emit es) = []"
  by (induction es) simp_all

lemma yield_effect:
  "yield item t = (r, t') \<Longrightarrow> trace t' = trace t @ [Emit item] \<and> proc t' = proc t"
  by (auto simp: yield_def Let_def)

lemma yield_each_effect:
  "yield_each evts t = (r, t') \<Longrightarrow>
   \<exists>es. trace t' = trace t @ map Emit es \<and> prefix es evts \<and> (r = Inr () \<longrightarrow> es = evts)
        \<and> proc t' = proc t"
proof (induction evts arbitrary: t)
  case Nil
  then show ?case by auto
next
  case (Cons evt evts)
  obtain r1 t1 where y: "yield evt t = (r1, t1)" by (cases "yield evt t")
  then have e1: "trace t1 = trace t @ [Emit evt]" "proc t1 = proc t"
    using yield_effect by blast+
  show ?case
  proof (cases r1)
    case (Inl h)
    with y Cons.prems have "t' = t1" "r = Inl h" by auto
    with e1 have "trace t' = trace t @ map Emit [evt] \<and> prefix [evt] (evt # evts)
        \<and> (r = Inr () \<longrightarrow> [evt] = evt # evts) \<and> proc t' = proc t"
      by simp
    then show ?thesis by blast
  next
    case (Inr u)
    with y Cons.prems have "yield_each evts t1 = (r, t')" by simp
    from Cons.IH[OF this] obtain es where
      es: "trace t' = trace t1 @ map Emit es" "prefix es evts" "r = Inr () \<longrightarrow> es = evts"
          "proc t' = proc t1"
      by blast
    with e1 have "trace t' = trace t @ map Emit (evt # es) \<and> prefix (evt # es) (evt # evts)
        \<and> (r = Inr () \<longrightarrow> evt # es = evt # evts) \<and> proc t' = proc t"
      by simp
    then show ?thesis by blast
  qed
qed


lemma run_stream_effect:
  "run_stream d rts ss t = (r, t') \<Longrightarrow>
   \<exists>es. trace t' = trace t @ map Emit es
      \<and> prefix es (tool_events (proc t) @ spec_events d (sandbox (proc t)) rts ss)
      \<and> (r = Inr () \<longrightarrow> es @ tool_events (proc t') = tool_events (proc t) @ spec_events d (sandbox (proc t)) rts ss)
      \<and> sandbox (proc t') = sandbox (proc t)
      \<and> apply_calls (proc t') = apply_calls (proc t)
      \<and> database (proc t') = database (proc t)"
proof (induction ss arbitrary: t)
  case Nil
  then have "t' = t" "r = Inr ()" by auto
  then have "trace t' = trace t @ map Emit []
      \<and> prefix [] (tool_events (proc t) @ spec_events d (sandbox (proc t)) rts [])
      \<and> (r = Inr () \<longrightarrow> [] @ tool_events (proc t') = tool_events (proc t) @ spec_events d (sandbox (proc t)) rts [])
      \<and> sandbox (proc t') = sandbox (proc t)
      \<and> apply_calls (proc t') = apply_calls (proc t)
      \<and> database (proc t') = database (proc t)"
    by simp
  then show ?case by blast
next
  case (Cons st ss)
  show ?case
  proof (cases st)
    case (ToolCall path now)
    obtain x p' where rf: "read_file (read_text d (sandbox (proc t))) now path (proc t) = (x, p')"
      by (cases "read_file (read_text d (sandbox (proc t))) now path (proc t)")
    have fr: "sandbox p' = sandbox (proc t)" "apply_calls p' = apply_calls (proc t)"
             "database p' = database (proc t)"
      using read_file_frame[of "read_text d (sandbox (proc t))" now path "proc t"] rf by simp_all
    have ap: "tool_events p' = tool_events (proc t) @ accumulated d (sandbox (proc t)) now path"
      using read_file_appends[of d "sandbox (proc t)" now path "proc t"] rf by simp
    show ?thesis
    proof (cases x)
      case (Inl e)
      with rf ToolCall Cons.prems have "r = Inl (Raised e)" "t' = t\<lparr>proc := p'\<rparr>" by auto
      with fr have "trace t' = trace t @ map Emit []
          \<and> prefix [] (tool_events (proc t) @ spec_events d (sandbox (proc t)) rts (st # ss))
          \<and> (r = Inr () \<longrightarrow> [] @ tool_events (proc t') = tool_events (proc t) @ spec_events d (sandbox (proc t)) rts (st # ss))
          \<and> sandbox (proc t') = sandbox (proc t)
          \<and> apply_calls (proc t') = apply_calls (proc t)
          \<and> database (proc t') = database (proc t)"
        by simp
      then show ?thesis by blast
    next
      case (Inr c)
      with rf ToolCall Cons.prems have "run_stream d rts ss (t\<lparr>proc := p'\<rparr>) = (r, t')" by simp
      from Cons.IH[OF this] fr obtain es where
        es: "trace t' = trace t @ map Emit es"
            "prefix es (tool_events p' @ spec_events d (sandbox (proc t)) rts ss)"
            "r = Inr () \<longrightarrow> es @ tool_events (proc t') = tool_events p' @ spec_events d (sandbox (proc t)) rts ss"
            "sandbox (proc t') = sandbox p'" "apply_calls (proc t') = apply_calls p'"
            "database (proc t') = database p'"
        by auto
      with fr ap ToolCall have "trace t' = trace t @ map Emit es
          \<and> prefix es (tool_events (proc t) @ spec_events d (sandbox (proc t)) rts (st # ss))
          \<and> (r = Inr () \<longrightarrow> es @ tool_events (proc t') = tool_events (proc t) @ spec_events d (sandbox (proc t)) rts (st # ss))
          \<and> sandbox (proc t') = sandbox (proc t)
          \<and> apply_calls (proc t') = apply_calls (proc t)
          \<and> database (proc t') = database (proc t)"
        by simp
      then show ?thesis by blast
    qed
  next
    case (TextChunk body)
    let ?B = "tool_events (proc t)"
    let ?m = "\<lparr>role = Model, timestamp = rts, content = body\<rparr>"
    obtain r1 t1 where ye: "yield_each ?B t = (r1, t1)" by (cases "yield_each ?B t")
    from yield_each_effect[OF ye] obtain es1 where
      es1: "trace t1 = trace t @ map Emit es1" "prefix es1 ?B" "r1 = Inr () \<longrightarrow> es1 = ?B"
           "proc t1 = proc t"
      by blast
    show ?thesis
    proof (cases r1)
      case (Inl h)
      with ye TextChunk Cons.prems have "r = Inl h" "t' = t1" by auto
      with es1 have "trace t' = trace t @ map Emit es1
          \<and> prefix es1 (?B @ spec_events d (sandbox (proc t)) rts (st # ss))
          \<and> (r = Inr () \<longrightarrow> es1 @ tool_events (proc t') = ?B @ spec_events d (sandbox (proc t)) rts (st # ss))
          \<and> sandbox (proc t') = sandbox (proc t)
          \<and> apply_calls (proc t') = apply_calls (proc t)
          \<and> database (proc t') = database (proc t)"
        by simp
      then show ?thesis by blast
    next
      case (Inr u)
      then have B: "es1 = ?B" using es1 by simp
      obtain r2 t2 where y2: "yield ?m (clear_tool_events t1) = (r2, t2)"
        by (cases "yield ?m (clear_tool_events t1)")
      from yield_effect[OF y2] es1 B have
        e2: "trace t2 = trace t @ map Emit (?B @ [?m])" "proc t2 = (proc t)\<lparr>tool_events := []\<rparr>"
        by (simp_all add: clear_tool_events_def)
      show ?thesis
      proof (cases r2)
        case h: (Inl h)
        with Inr ye y2 TextChunk Cons.prems have "r = Inl h" "t' = t2" by auto
        with e2 TextChunk have "trace t' = trace t @ map Emit (?B @ [?m])
            \<and> prefix (?B @ [?m]) (?B @ spec_events d (sandbox (proc t)) rts (st # ss))
            \<and> (r = Inr () \<longrightarrow> (?B @ [?m]) @ tool_events (proc t') = ?B @ spec_events d (sandbox (proc t)) rts (st # ss))
            \<and> sandbox (proc t') = sandbox (proc t)
            \<and> apply_calls (proc t') = apply_calls (proc t)
            \<and> database (proc t') = database (proc t)"
          by simp
        then show ?thesis by blast
      next
        case u2: (Inr u2)
        with Inr ye y2 TextChunk Cons.prems have "run_stream d rts ss t2 = (r, t')" by simp
        from Cons.IH[OF this] e2 obtain es2 where
          es2: "trace t' = trace t2 @ map Emit es2"
               "prefix es2 (tool_events (proc t2) @ spec_events d (sandbox (proc t)) rts ss)"
               "r = Inr () \<longrightarrow> es2 @ tool_events (proc t') = tool_events (proc t2) @ spec_events d (sandbox (proc t)) rts ss"
               "sandbox (proc t') = sandbox (proc t2)" "apply_calls (proc t') = apply_calls (proc t2)"
               "database (proc t') = database (proc t2)"
          by auto
        with e2 TextChunk have "trace t' = trace t @ map Emit (?B @ [?m] @ es2)
            \<and> prefix (?B @ [?m] @ es2) (?B @ spec_events d (sandbox (proc t)) rts (st # ss))
            \<and> (r = Inr () \<longrightarrow> (?B @ [?m] @ es2) @ tool_events (proc t') = ?B @ spec_events d (sandbox (proc t)) rts (st # ss))
            \<and> sandbox (proc t') = sandbox (proc t)
            \<and> apply_calls (proc t') = apply_calls (proc t)
            \<and> database (proc t') = database (proc t)"
          by simp
        then show ?thesis by blast
      qed
    qed
  next
    case (AgentRaise e)
    with Cons.prems have "r = Inl (Raised e)" "t' = t" by auto
    then have "trace t' = trace t @ map Emit []
        \<and> prefix [] (tool_events (proc t) @ spec_events d (sandbox (proc t)) rts (st # ss))
        \<and> (r = Inr () \<longrightarrow> [] @ tool_events (proc t') = tool_events (proc t) @ spec_events d (sandbox (proc t)) rts (st # ss))
        \<and> sandbox (proc t') = sandbox (proc t)
        \<and> apply_calls (proc t') = apply_calls (proc t)
        \<and> database (proc t') = database (proc t)"
      by simp
    then show ?thesis by blast
  qed
qed

lemma stream_messages_effect:
  assumes sm: "stream_messages d prompt now t = (r, t')"
  shows "\<exists>es bs. trace t' = trace t @ map Emit es @ map Persist bs
      \<and> prefix es (spec_turn d (sandbox (proc t)) prompt now (database (proc t)))
      \<and> (budget t \<noteq> Some 0 \<longrightarrow> es \<noteq> [])
      \<and> (r = Inr () \<longrightarrow> es = spec_turn d (sandbox (proc t)) prompt now (database (proc t))
            \<and> (\<exists>messages. get_messages (decode d) (database (proc t)) = Inr messages
                  \<and> bs = [new_messages_json (agent d prompt messages)]))
      \<and> (r \<noteq> Inr () \<longrightarrow> bs = [])
      \<and> database (proc t') = fold add_messages bs (database (proc t))
      \<and> sandbox (proc t') = sandbox (proc t)
      \<and> apply_calls (proc t') = apply_calls (proc t)"
proof -
  let ?u = "\<lparr>role = User, timestamp = now, content = prompt\<rparr>"
  let ?db = "database (proc t)"
  let ?goal = "\<lambda>es bs. trace t' = trace t @ map Emit es @ map Persist bs
      \<and> prefix es (spec_turn d (sandbox (proc t)) prompt now ?db)
      \<and> (budget t \<noteq> Some 0 \<longrightarrow> es \<noteq> [])
      \<and> (r = Inr () \<longrightarrow> es = spec_turn d (sandbox (proc t)) prompt now ?db
            \<and> (\<exists>messages. get_messages (decode d) ?db = Inr messages
                  \<and> bs = [new_messages_json (agent d prompt messages)]))
      \<and> (r \<noteq> Inr () \<longrightarrow> bs = [])
      \<and> database (proc t') = fold add_messages bs ?db
      \<and> sandbox (proc t') = sandbox (proc t)
      \<and> apply_calls (proc t') = apply_calls (proc t)"
  show ?thesis
  proof (cases "budget t = Some 0")
    case True
    with sm have "r = Inl Disconnected" "t' = t" by (auto simp: stream_messages_def)
    with True have "?goal [] []" by simp
    then show ?thesis by blast
  next
    case b: False
    obtain r1 t1 where y1: "yield ?u t = (r1, t1)" by (cases "yield ?u t")
    from yield_effect[OF y1] have e1: "trace t1 = trace t @ [Emit ?u]" "proc t1 = proc t"
      by simp_all
    show ?thesis
    proof (cases r1)
      case (Inl h)
      with sm b y1 have "r = Inl h" "t' = t1" by (auto simp: stream_messages_def)
      with e1 have "?goal [?u] []" by (simp add: spec_turn_def)
      then show ?thesis by blast
    next
      case u1: (Inr u1)
      show ?thesis
      proof (cases "get_messages (decode d) ?db")
        case (Inl e)
        with sm b y1 u1 e1 have "r = Inl (Raised e)" "t' = t1"
          by (auto simp: stream_messages_def)
        with e1 have "?goal [?u] []" by (simp add: spec_turn_def)
        then show ?thesis by blast
      next
        case (Inr messages)
        let ?run = "agent d prompt messages"
        let ?spec = "spec_events d (sandbox (proc t)) (result_timestamp ?run) (steps ?run)"
        have st: "spec_turn d (sandbox (proc t)) prompt now ?db = ?u # ?spec"
          using Inr by (simp add: spec_turn_def Let_def)
        obtain r2 t2 where rs:
          "run_stream d (result_timestamp ?run) (steps ?run) (clear_tool_events t1) = (r2, t2)"
          by (cases "run_stream d (result_timestamp ?run) (steps ?run) (clear_tool_events t1)")
        from run_stream_effect[OF rs] e1 obtain es2 where
          es2: "trace t2 = trace t @ map Emit (?u # es2)"
               "prefix es2 ?spec"
               "r2 = Inr () \<longrightarrow> es2 @ tool_events (proc t2) = ?spec"
               "sandbox (proc t2) = sandbox (proc t)" "apply_calls (proc t2) = apply_calls (proc t)"
               "database (proc t2) = ?db"
          by (auto simp: clear_tool_events_def)
        show ?thesis
        proof (cases r2)
          case h2: (Inl h)
          with sm b y1 u1 e1 Inr rs have "r = Inl h" "t' = t2"
            by (auto simp: stream_messages_def Let_def)
          with es2 st have "?goal (?u # es2) []" by simp
          then show ?thesis by blast
        next
          case u2: (Inr u2)
          then have sp: "es2 @ tool_events (proc t2) = ?spec" using es2 by simp
          obtain r3 t3 where y3: "yield_each (tool_events (proc t2)) t2 = (r3, t3)"
            by (cases "yield_each (tool_events (proc t2)) t2")
          from yield_each_effect[OF y3] obtain es3 where
            es3: "trace t3 = trace t2 @ map Emit es3" "prefix es3 (tool_events (proc t2))"
                 "r3 = Inr () \<longrightarrow> es3 = tool_events (proc t2)" "proc t3 = proc t2"
            by blast
          have pf: "prefix (es2 @ es3) ?spec"
            using es3(2) sp by (metis same_prefix_prefix)
          show ?thesis
          proof (cases r3)
            case h3: (Inl h)
            with sm b y1 u1 e1 Inr rs u2 y3 have "r = Inl h" "t' = t3"
              by (auto simp: stream_messages_def Let_def)
            with es2 es3 st pf have "?goal (?u # es2 @ es3) []" by simp
            then show ?thesis by blast
          next
            case u3: (Inr u3)
            with sm b y1 u1 e1 Inr rs u2 y3 have
              fin: "r = Inr ()" "t' = persist (new_messages_json ?run) (clear_tool_events t3)"
              by (auto simp: stream_messages_def Let_def)
            from u3 es3 sp have all: "es2 @ es3 = ?spec" by simp
            from all have m: "map Emit es2 @ map Emit es3 = map Emit ?spec"
              by (metis map_append)
            from fin es2 es3 st all m Inr
            have "?goal (?u # es2 @ es3) [new_messages_json ?run]"
              by (simp add: persist_def clear_tool_events_def)
            then show ?thesis by blast
          qed
        qed
      qed
    qed
  qed
qed

text \<open>A consumer that reads to the end never stops the generator.\<close>

lemma yield_unbounded:
  "budget t = None \<Longrightarrow> fst (yield item t) = Inr () \<and> budget (snd (yield item t)) = None"
  by (simp add: yield_def Let_def)

lemma yield_each_unbounded:
  "budget t = None \<Longrightarrow>
   fst (yield_each evts t) = Inr () \<and> budget (snd (yield_each evts t)) = None"
proof (induction evts arbitrary: t)
  case Nil
  then show ?case by simp
next
  case (Cons evt evts)
  obtain r1 t1 where y: "yield evt t = (r1, t1)" by (cases "yield evt t")
  with yield_unbounded[OF Cons.prems, of evt] have "r1 = Inr ()" "budget t1 = None" by simp_all
  with y Cons.IH[of t1] show ?case by simp
qed

lemma run_stream_unbounded:
  "budget t = None \<Longrightarrow> list_all (step_ok d (sandbox (proc t))) ss \<Longrightarrow>
   fst (run_stream d rts ss t) = Inr () \<and> budget (snd (run_stream d rts ss t)) = None"
proof (induction ss arbitrary: t)
  case Nil
  then show ?case by simp
next
  case (Cons st ss)
  then have ok: "step_ok d (sandbox (proc t)) st" "list_all (step_ok d (sandbox (proc t))) ss" by simp_all
  show ?case
  proof (cases st)
    case (ToolCall path now)
    obtain x p' where rf: "read_file (read_text d (sandbox (proc t))) now path (proc t) = (x, p')"
      by (cases "read_file (read_text d (sandbox (proc t))) now path (proc t)")
    from ok ToolCall read_file_returns[of "read_text d (sandbox (proc t))" path now "proc t"] rf
    obtain c where "x = Inr c" by auto
    moreover have "sandbox p' = sandbox (proc t)"
      using read_file_frame[of "read_text d (sandbox (proc t))" now path "proc t"] rf by simp
    ultimately show ?thesis
      using rf ToolCall Cons.IH[of "t\<lparr>proc := p'\<rparr>"] Cons.prems(1) ok by simp
  next
    case (TextChunk body)
    let ?m = "\<lparr>role = Model, timestamp = rts, content = body\<rparr>"
    obtain r1 t1 where ye: "yield_each (tool_events (proc t)) t = (r1, t1)"
      by (cases "yield_each (tool_events (proc t)) t")
    with yield_each_unbounded[OF Cons.prems(1), of "tool_events (proc t)"]
    have 1: "r1 = Inr ()" "budget t1 = None" by simp_all
    then have bc: "budget (clear_tool_events t1) = None" by (simp add: clear_tool_events_def)
    obtain r2 t2 where y2: "yield ?m (clear_tool_events t1) = (r2, t2)"
      by (cases "yield ?m (clear_tool_events t1)")
    with yield_unbounded[OF bc, of ?m] have 2: "r2 = Inr ()" "budget t2 = None" by simp_all
    have "sandbox (proc t2) = sandbox (proc t)"
      using yield_each_effect[OF ye] yield_effect[OF y2] by (auto simp: clear_tool_events_def)
    with ye 1 2 y2 TextChunk Cons.IH[of t2] ok show ?thesis by simp
  next
    case (AgentRaise e)
    with ok show ?thesis by simp
  qed
qed

lemma stream_messages_completes:
  assumes "budget t = None"
    and "get_messages (decode d) (database (proc t)) = Inr messages"
    and "list_all (step_ok d (sandbox (proc t))) (steps (agent d prompt messages))"
  shows "fst (stream_messages d prompt now t) = Inr ()"
proof -
  let ?u = "\<lparr>role = User, timestamp = now, content = prompt\<rparr>"
  let ?run = "agent d prompt messages"
  obtain r1 t1 where y1: "yield ?u t = (r1, t1)" by (cases "yield ?u t")
  with yield_unbounded[OF assms(1), of ?u] have 1: "r1 = Inr ()" "budget t1 = None" by simp_all
  from yield_effect[OF y1] have p1: "proc t1 = proc t" by simp
  from 1 have bc: "budget (clear_tool_events t1) = None" by (simp add: clear_tool_events_def)
  from assms(3) p1 have ok:
    "list_all (step_ok d (sandbox (proc (clear_tool_events t1)))) (steps ?run)"
    by (simp add: clear_tool_events_def)
  obtain r2 t2 where rs:
    "run_stream d (result_timestamp ?run) (steps ?run) (clear_tool_events t1) = (r2, t2)"
    by (cases "run_stream d (result_timestamp ?run) (steps ?run) (clear_tool_events t1)")
  with run_stream_unbounded[OF bc ok, of "result_timestamp ?run"]
  have 2: "r2 = Inr ()" "budget t2 = None" by simp_all
  obtain r3 t3 where y3: "yield_each (tool_events (proc t2)) t2 = (r3, t3)"
    by (cases "yield_each (tool_events (proc t2)) t2")
  with yield_each_unbounded[OF 2(2), of "tool_events (proc t2)"] have 3: "r3 = Inr ()" by simp
  from assms(1,2) y1 1 p1 rs 2 y3 3 show ?thesis
    by (simp add: stream_messages_def Let_def)
qed

text \<open>A consumer that takes \<open>n\<close> items sees the turn complete only if it yields fewer.\<close>

lemma yield_budget:
  "yield item t = (Inr u, t') \<Longrightarrow> budget t = Some n \<Longrightarrow> budget t' = Some (n - 1) \<and> 1 < n"
  by (auto simp: yield_def Let_def split: if_splits)

lemma yield_each_budget:
  "yield_each evts t = (Inr u, t') \<Longrightarrow> budget t = Some n \<Longrightarrow> 0 < n \<Longrightarrow>
   budget t' = Some (n - length evts) \<and> length evts < n"
proof (induction evts arbitrary: t n)
  case Nil
  then show ?case by simp
next
  case (Cons evt evts)
  obtain r1 t1 where y: "yield evt t = (r1, t1)" by (cases "yield evt t")
  with Cons.prems(1) obtain u1 where r1: "r1 = Inr u1" and ye: "yield_each evts t1 = (Inr u, t')"
    by (cases r1) auto
  from yield_budget[of evt t u1 t1 n] y r1 Cons.prems(2)
  have b1: "budget t1 = Some (n - 1)" "1 < n" by simp_all
  from Cons.IH[OF ye b1(1)] b1(2)
  have "budget t' = Some (n - 1 - length evts) \<and> length evts < n - 1" by simp
  then show ?case by auto
qed

lemma run_stream_budget:
  "run_stream d rts ss t = (Inr u, t') \<Longrightarrow> budget t = Some n \<Longrightarrow> 0 < n \<Longrightarrow>
   \<exists>k. length (trace t') = length (trace t) + k \<and> budget t' = Some (n - k) \<and> k < n"
proof (induction ss arbitrary: t n)
  case Nil
  then have "length (trace t') = length (trace t) + 0 \<and> budget t' = Some (n - 0) \<and> 0 < n"
    by auto
  then show ?case by blast
next
  case (Cons st ss)
  show ?case
  proof (cases st)
    case (ToolCall path now)
    obtain x p' where rf: "read_file (read_text d (sandbox (proc t))) now path (proc t) = (x, p')"
      by (cases "read_file (read_text d (sandbox (proc t))) now path (proc t)")
    with ToolCall Cons.prems(1) have rs: "run_stream d rts ss (t\<lparr>proc := p'\<rparr>) = (Inr u, t')"
      by (cases x) auto
    from Cons.IH[OF rs, of n] Cons.prems(2,3) show ?thesis by simp
  next
    case (TextChunk body)
    let ?m = "\<lparr>role = Model, timestamp = rts, content = body\<rparr>"
    obtain r1 t1 where ye: "yield_each (tool_events (proc t)) t = (r1, t1)"
      by (cases "yield_each (tool_events (proc t)) t")
    with TextChunk Cons.prems(1) obtain u1 where r1: "r1 = Inr u1" by (cases r1) auto
    obtain r2 t2 where y2: "yield ?m (clear_tool_events t1) = (r2, t2)"
      by (cases "yield ?m (clear_tool_events t1)")
    with ye r1 TextChunk Cons.prems(1) obtain u2 where r2: "r2 = Inr u2"
      and rs: "run_stream d rts ss t2 = (Inr u, t')"
      by (cases r2) auto
    let ?k1 = "length (tool_events (proc t))"
    from yield_each_budget[of "tool_events (proc t)" t u1 t1 n] ye r1 Cons.prems(2,3)
    have b1: "budget t1 = Some (n - ?k1)" "?k1 < n" by simp_all
    from yield_each_effect[OF ye] r1 have tr1: "length (trace t1) = length (trace t) + ?k1"
      by auto
    from b1 have bc: "budget (clear_tool_events t1) = Some (n - ?k1)"
      by (simp add: clear_tool_events_def)
    from yield_budget[of ?m "clear_tool_events t1" u2 t2 "n - ?k1"] y2 r2 bc
    have b2: "budget t2 = Some (n - ?k1 - 1)" "1 < n - ?k1" by simp_all
    from yield_effect[OF y2] tr1 have tr2: "length (trace t2) = length (trace t) + ?k1 + 1"
      by (simp add: clear_tool_events_def)
    from b2 have pos: "0 < n - ?k1 - 1" by simp
    from Cons.IH[OF rs b2(1) pos] obtain k where
      k: "length (trace t') = length (trace t2) + k" "budget t' = Some (n - ?k1 - 1 - k)"
         "k < n - ?k1 - 1"
      by blast
    with tr2 have "length (trace t') = length (trace t) + (?k1 + 1 + k)
        \<and> budget t' = Some (n - (?k1 + 1 + k)) \<and> ?k1 + 1 + k < n"
      by auto
    then show ?thesis by blast
  next
    case (AgentRaise e)
    with Cons.prems(1) show ?thesis by simp
  qed
qed

lemma stream_messages_budget:
  assumes sm: "stream_messages d prompt now t = (Inr u, t')" and b: "budget t = Some n"
  shows "length (trace t') - length (trace t) \<le> n"
proof -
  let ?u = "\<lparr>role = User, timestamp = now, content = prompt\<rparr>"
  have n0: "n \<noteq> 0"
  proof
    assume "n = 0"
    with b have "stream_messages d prompt now t = (Inl Disconnected, t)"
      by (simp add: stream_messages_def)
    with sm show False by simp
  qed
  obtain r1 t1 where y1: "yield ?u t = (r1, t1)" by (cases "yield ?u t")
  with sm n0 b obtain u1 where r1: "r1 = Inr u1" by (cases r1) (auto simp: stream_messages_def)
  from yield_budget[of ?u t u1 t1 n] y1 r1 b have b1: "budget t1 = Some (n - 1)" "1 < n"
    by simp_all
  from yield_effect[OF y1] have e1: "length (trace t1) = length (trace t) + 1" "proc t1 = proc t"
    by simp_all
  obtain messages where gm: "get_messages (decode d) (database (proc t)) = Inr messages"
    using sm n0 b y1 r1 e1
    by (cases "get_messages (decode d) (database (proc t))") (auto simp: stream_messages_def)
  let ?run = "agent d prompt messages"
  obtain r2 t2 where rs:
    "run_stream d (result_timestamp ?run) (steps ?run) (clear_tool_events t1) = (r2, t2)"
    by (cases "run_stream d (result_timestamp ?run) (steps ?run) (clear_tool_events t1)")
  with sm n0 b y1 r1 e1 gm obtain u2 where r2: "r2 = Inr u2"
    by (cases r2) (auto simp: stream_messages_def Let_def)
  obtain r3 t3 where y3: "yield_each (tool_events (proc t2)) t2 = (r3, t3)"
    by (cases "yield_each (tool_events (proc t2)) t2")
  with sm n0 b y1 r1 e1 gm rs r2 obtain u3 where r3: "r3 = Inr u3"
    and fin: "t' = persist (new_messages_json ?run) (clear_tool_events t3)"
    by (cases r3) (auto simp: stream_messages_def Let_def)
  from b1 have bc: "budget (clear_tool_events t1) = Some (n - 1)" "0 < n - 1"
    by (simp_all add: clear_tool_events_def)
  from run_stream_budget[of d "result_timestamp ?run" "steps ?run" "clear_tool_events t1" u2 t2 "n - 1"]
    rs r2 bc obtain k where
    k: "length (trace t2) = length (trace (clear_tool_events t1)) + k"
       "budget t2 = Some (n - 1 - k)" "k < n - 1"
    by auto
  let ?k3 = "length (tool_events (proc t2))"
  from k have pos: "0 < n - 1 - k" by simp
  from yield_each_budget[of "tool_events (proc t2)" t2 u3 t3 "n - 1 - k"] y3 r3 k(2) pos
  have b3: "?k3 < n - 1 - k" by simp
  from yield_each_effect[OF y3] r3 have tr3: "length (trace t3) = length (trace t2) + ?k3"
    by auto
  from fin tr3 k e1 have "length (trace t') = length (trace t) + 1 + k + ?k3 + 1"
    by (simp add: persist_def clear_tool_events_def)
  with b3 k show ?thesis by simp
qed

text \<open>A turn that completes met no step that raises.\<close>

lemma persisted_map_Persist: "persisted (map Persist bs) = bs"
  by (induction bs) simp_all

lemma emitted_map_Persist: "emitted (map Persist bs) = []"
  by (induction bs) simp_all

lemma read_file_returned:
  "fst (read_file rt now path p) = Inr s \<Longrightarrow>
   (case rt path of Inr body \<Rightarrow> True | Inl exc \<Rightarrow> is_OSError exc)"
proof (cases "rt path")
  case (Inr body)
  then show ?thesis by simp
next
  case (Inl exc)
  assume r: "fst (read_file rt now path p) = Inr s"
  have "is_OSError exc"
  proof (rule ccontr)
    assume "\<not> is_OSError exc"
    with Inl have "read_file rt now path p = (Inl exc, p)" by (rule read_file_propagates)
    with r show False by simp
  qed
  with Inl show ?thesis by simp
qed

lemma run_stream_ok:
  "run_stream d rts ss t = (Inr u, t') \<Longrightarrow> list_all (step_ok d (sandbox (proc t))) ss"
proof (induction ss arbitrary: t)
  case Nil
  then show ?case by simp
next
  case (Cons st ss)
  show ?case
  proof (cases st)
    case (ToolCall path now)
    obtain x p' where rf: "read_file (read_text d (sandbox (proc t))) now path (proc t) = (x, p')"
      by (cases "read_file (read_text d (sandbox (proc t))) now path (proc t)")
    with ToolCall Cons.prems obtain c where x: "x = Inr c"
      and rs: "run_stream d rts ss (t\<lparr>proc := p'\<rparr>) = (Inr u, t')"
      by (cases x) auto
    from rf x have "fst (read_file (read_text d (sandbox (proc t))) now path (proc t)) = Inr c" by simp
    then have "step_ok d (sandbox (proc t)) st" using ToolCall read_file_returned by simp
    moreover have "sandbox p' = sandbox (proc t)"
      using read_file_frame[of "read_text d (sandbox (proc t))" now path "proc t"] rf by simp
    ultimately show ?thesis using Cons.IH[OF rs] by simp
  next
    case (TextChunk body)
    let ?m = "\<lparr>role = Model, timestamp = rts, content = body\<rparr>"
    obtain r1 t1 where ye: "yield_each (tool_events (proc t)) t = (r1, t1)"
      by (cases "yield_each (tool_events (proc t)) t")
    with TextChunk Cons.prems obtain u1 where r1: "r1 = Inr u1" by (cases r1) auto
    obtain r2 t2 where y2: "yield ?m (clear_tool_events t1) = (r2, t2)"
      by (cases "yield ?m (clear_tool_events t1)")
    with ye r1 TextChunk Cons.prems have rs: "run_stream d rts ss t2 = (Inr u, t')"
      by (cases r2) auto
    have "sandbox (proc t2) = sandbox (proc t)"
      using yield_each_effect[OF ye] yield_effect[OF y2] by (auto simp: clear_tool_events_def)
    with Cons.IH[OF rs] TextChunk show ?thesis by simp
  next
    case (AgentRaise e)
    with Cons.prems show ?thesis by simp
  qed
qed

lemma stream_messages_ok:
  assumes sm: "stream_messages d prompt now t = (Inr u, t')"
    and gm: "get_messages (decode d) (database (proc t)) = Inr messages"
  shows "list_all (step_ok d (sandbox (proc t))) (steps (agent d prompt messages))"
proof -
  let ?u = "\<lparr>role = User, timestamp = now, content = prompt\<rparr>"
  let ?run = "agent d prompt messages"
  have b: "budget t \<noteq> Some 0"
  proof
    assume "budget t = Some 0"
    then have "stream_messages d prompt now t = (Inl Disconnected, t)"
      by (simp add: stream_messages_def)
    with sm show False by simp
  qed
  obtain r1 t1 where y1: "yield ?u t = (r1, t1)" by (cases "yield ?u t")
  with sm b obtain u1 where r1: "r1 = Inr u1" by (cases r1) (auto simp: stream_messages_def)
  from yield_effect[OF y1] have p1: "proc t1 = proc t" by simp
  obtain r2 t2 where rs:
    "run_stream d (result_timestamp ?run) (steps ?run) (clear_tool_events t1) = (r2, t2)"
    by (cases "run_stream d (result_timestamp ?run) (steps ?run) (clear_tool_events t1)")
  with sm b y1 r1 p1 gm obtain u2 where "r2 = Inr u2"
    by (cases r2) (auto simp: stream_messages_def Let_def)
  with rs have "list_all (step_ok d (sandbox (proc (clear_tool_events t1)))) (steps ?run)"
    using run_stream_ok by blast
  with p1 show ?thesis by (simp add: clear_tool_events_def)
qed

text \<open>The turn of the scenario.\<close>

lemma scenario_history:
  "get_messages (decode scenario_deps) (database (initial_process (connect None))) = Inr []"
  by (simp add: get_messages_def select_message_list_def connect_def initial_process_def)

lemma scenario_steps_ok:
  "list_all (step_ok scenario_deps sb) (steps (agent scenario_deps prompt messages))"
  by (simp add: scenario_deps_def scenario_read_text_def lit_def)

lemma scenario_spec_turn:
  "spec_turn scenario_deps sb (lit ''read both'') 2 (database (initial_process (connect None)))
   = [\<lparr>role = User, timestamp = 2, content = lit ''read both''\<rparr>,
      \<lparr>role = Tool, timestamp = 3,
        content = lit ''read_file(/etc/passwd) -- BLOCKED by nono sandbox (permission denied)''\<rparr>,
      \<lparr>role = Tool, timestamp = 4,
        content = lit ''read_file(/sandbox/notes.txt) -- ALLOWED (5 bytes read)''\<rparr>,
      \<lparr>role = Model, timestamp = 5, content = lit ''Hi''\<rparr>]"
proof -
  have a: "accumulated scenario_deps sb 3 (lit ''/etc/passwd'')
      = [\<lparr>role = Tool, timestamp = 3,
          content = lit ''read_file(/etc/passwd) -- BLOCKED by nono sandbox (permission denied)''\<rparr>]"
    by (simp add: accumulated_def read_file_def scenario_deps_def scenario_read_text_def
          initial_process_def tool_event_def lit_def)
  have b: "accumulated scenario_deps sb 4 (lit ''/sandbox/notes.txt'')
      = [\<lparr>role = Tool, timestamp = 4,
          content = lit ''read_file(/sandbox/notes.txt) -- ALLOWED (5 bytes read)''\<rparr>]"
    by (simp add: accumulated_def read_file_def scenario_deps_def scenario_read_text_def
          initial_process_def tool_event_def lit_def str_of_nat_def)
  have c: "agent scenario_deps (lit ''read both'') []
      = \<lparr>steps = [ToolCall (lit ''/etc/passwd'') 3, ToolCall (lit ''/sandbox/notes.txt'') 4,
                  TextChunk (lit ''Hi'')],
         result_timestamp = 5, new_messages_json = ''turn''\<rparr>"
    by (simp add: scenario_deps_def)
  show ?thesis
    by (simp add: spec_turn_def scenario_history c a b)
qed

section \<open>Persistence and order of a turn\<close>

text \<open>
  Claim C3. In a turn handled by \<open>post_chat\<close>, \<open>add_messages\<close> is called at most
  once. When the turn completes it is called exactly once, with the serialised new
  turn, as the last effect, after every event of the turn has been yielded, so after
  the final fragment; the table then holds that one blob more. When the turn ends in
  an exception or the consumer has disconnected, \<open>add_messages\<close> is not called and
  the table is unchanged. A turn whose consumer reads to the end, whose history
  loads and whose agent run does not raise does complete; a consumer that takes no
  more items than the turn has events disconnects before it completes.
\<close>

theorem turn_persisted_once:
  assumes pc: "post_chat d prompt now consumer p = (r, t')"
  shows "(r = Inr () \<longrightarrow>
            (\<exists>messages. get_messages (decode d) (database p) = Inr messages
               \<and> list_all (step_ok d (sandbox p)) (steps (agent d prompt messages))
               \<and> trace t' = map Emit (spec_turn d (sandbox p) prompt now (database p))
                             @ [Persist (new_messages_json (agent d prompt messages))]
               \<and> database (proc t')
                   = add_messages (new_messages_json (agent d prompt messages)) (database p)))
       \<and> (r \<noteq> Inr () \<longrightarrow> persisted (trace t') = [] \<and> database (proc t') = database p)
       \<and> length (persisted (trace t')) \<le> 1
       \<and> (consumer = None
            \<and> (\<exists>messages. get_messages (decode d) (database p) = Inr messages
                  \<and> list_all (step_ok d (sandbox p)) (steps (agent d prompt messages)))
            \<longrightarrow> r = Inr ())
       \<and> ((\<exists>n. consumer = Some n \<and> n \<le> length (spec_turn d (sandbox p) prompt now (database p)))
            \<longrightarrow> r \<noteq> Inr ())"
proof -
  let ?t = "\<lparr>budget = consumer, trace = [], proc = p\<rparr>"
  from pc have sm: "stream_messages d prompt now ?t = (r, t')" by (simp add: post_chat_def)
  from stream_messages_effect[OF sm] obtain es bs where
    e: "trace t' = map Emit es @ map Persist bs"
       "r = Inr () \<longrightarrow> es = spec_turn d (sandbox p) prompt now (database p)
            \<and> (\<exists>messages. get_messages (decode d) (database p) = Inr messages
                  \<and> bs = [new_messages_json (agent d prompt messages)])"
       "r \<noteq> Inr () \<longrightarrow> bs = []"
       "database (proc t') = fold add_messages bs (database p)"
    by auto
  have pe: "persisted (trace t') = bs"
    by (simp add: e(1) persisted_append persisted_map_Emit persisted_map_Persist)
  have 1: "r = Inr () \<longrightarrow>
            (\<exists>messages. get_messages (decode d) (database p) = Inr messages
               \<and> list_all (step_ok d (sandbox p)) (steps (agent d prompt messages))
               \<and> trace t' = map Emit (spec_turn d (sandbox p) prompt now (database p))
                             @ [Persist (new_messages_json (agent d prompt messages))]
               \<and> database (proc t')
                   = add_messages (new_messages_json (agent d prompt messages)) (database p))"
  proof
    assume r: "r = Inr ()"
    with e(2) obtain messages where
      m: "get_messages (decode d) (database p) = Inr messages"
         "bs = [new_messages_json (agent d prompt messages)]"
         "es = spec_turn d (sandbox p) prompt now (database p)"
      by blast
    from sm r m(1) have "list_all (step_ok d (sandbox p)) (steps (agent d prompt messages))"
      using stream_messages_ok[of d prompt now ?t "()" t' messages] by simp
    with m e(1,4) show "\<exists>messages. get_messages (decode d) (database p) = Inr messages
               \<and> list_all (step_ok d (sandbox p)) (steps (agent d prompt messages))
               \<and> trace t' = map Emit (spec_turn d (sandbox p) prompt now (database p))
                             @ [Persist (new_messages_json (agent d prompt messages))]
               \<and> database (proc t')
                   = add_messages (new_messages_json (agent d prompt messages)) (database p)"
      by simp
  qed
  have 2: "r \<noteq> Inr () \<longrightarrow> persisted (trace t') = [] \<and> database (proc t') = database p"
    using e(3,4) pe by simp
  have 3: "length (persisted (trace t')) \<le> 1"
    using pe e(2,3) by (cases "r = Inr ()") auto
  have 4: "consumer = None
            \<and> (\<exists>messages. get_messages (decode d) (database p) = Inr messages
                  \<and> list_all (step_ok d (sandbox p)) (steps (agent d prompt messages)))
            \<longrightarrow> r = Inr ()"
  proof
    assume h: "consumer = None
            \<and> (\<exists>messages. get_messages (decode d) (database p) = Inr messages
                  \<and> list_all (step_ok d (sandbox p)) (steps (agent d prompt messages)))"
    then obtain messages where m: "get_messages (decode d) (database p) = Inr messages"
        "list_all (step_ok d (sandbox p)) (steps (agent d prompt messages))"
      by blast
    from h have "fst (stream_messages d prompt now ?t) = Inr ()"
      using stream_messages_completes[of ?t d messages prompt now] m by simp
    with sm show "r = Inr ()" by simp
  qed
  have 5: "(\<exists>n. consumer = Some n \<and> n \<le> length (spec_turn d (sandbox p) prompt now (database p)))
            \<longrightarrow> r \<noteq> Inr ()"
  proof
    assume "\<exists>n. consumer = Some n \<and> n \<le> length (spec_turn d (sandbox p) prompt now (database p))"
    then obtain n where n: "consumer = Some n" "n \<le> length (spec_turn d (sandbox p) prompt now (database p))"
      by blast
    show "r \<noteq> Inr ()"
    proof
      assume r: "r = Inr ()"
      with sm n(1) have "length (trace t') - length (trace ?t) \<le> n"
        using stream_messages_budget[of d prompt now ?t "()" t' n] by simp
      moreover from 1 r have "length (trace t') = length (spec_turn d (sandbox p) prompt now (database p)) + 1"
        by auto
      ultimately show False using n(2) by simp
    qed
  qed
  from 1 2 3 4 5 show ?thesis by blast
qed

theorem turn_persisted_once_witness:
  "fst (post_chat scenario_deps (lit ''read both'') 2 None (initial_process (connect None))) = Inr ()
   \<and> persisted (trace (snd (post_chat scenario_deps (lit ''read both'') 2 None
                               (initial_process (connect None))))) = [''turn'']
   \<and> fst (post_chat scenario_deps (lit ''read both'') 2 (Some 2) (initial_process (connect None)))
       \<noteq> Inr ()
   \<and> persisted (trace (snd (post_chat scenario_deps (lit ''read both'') 2 (Some 2)
                               (initial_process (connect None))))) = []"
proof -
  let ?full = "post_chat scenario_deps (lit ''read both'') 2 None (initial_process (connect None))"
  let ?cut = "post_chat scenario_deps (lit ''read both'') 2 (Some 2) (initial_process (connect None))"
  have j: "new_messages_json (agent scenario_deps (lit ''read both'') messages) = ''turn''"
    for messages
    by (simp add: scenario_deps_def)
  have f: "?full = (fst ?full, snd ?full)" by simp
  note F = turn_persisted_once[OF f]
  from F scenario_history scenario_steps_ok have 1: "fst ?full = Inr ()" by blast
  with F j have "trace (snd ?full)
      = map Emit (spec_turn scenario_deps (sandbox (initial_process (connect None))) (lit ''read both'') 2 (database (initial_process (connect None))))
        @ [Persist ''turn'']"
    by auto
  then have 2: "persisted (trace (snd ?full)) = [''turn'']"
    by (simp add: persisted_append persisted_map_Emit)
  have c: "?cut = (fst ?cut, snd ?cut)" by simp
  note C = turn_persisted_once[OF c]
  have "(2::nat) \<le> length (spec_turn scenario_deps (sandbox (initial_process (connect None))) (lit ''read both'') 2
                           (database (initial_process (connect None))))"
    by (simp add: scenario_spec_turn)
  with C have 3: "fst ?cut \<noteq> Inr ()" by blast
  with C have 4: "persisted (trace (snd ?cut)) = []" by blast
  from 1 2 3 4 show ?thesis by blast
qed

text \<open>A turn that no other turn overlaps is the turn on its own.\<close>

lemma run_stream_cons:
  "run_stream d rts (s # ss) t =
     (case run_stream d rts [s] t of
        (Inl h, t') \<Rightarrow> (Inl h, t')
      | (Inr u, t') \<Rightarrow> run_stream d rts ss t')"
  by (cases s) (simp_all split: prod.splits sum.splits)

lemma run_stream_shared_own:
  "run_stream_shared d rts (map Own ss) t = run_stream d rts ss t"
proof (induction ss arbitrary: t)
  case Nil
  then show ?case by simp
next
  case (Cons s ss)
  show ?case
    unfolding run_stream_cons[of d rts s ss t] list.map run_stream_shared.simps Cons.IH ..
qed

lemma weave_alone: "concat others = [] \<Longrightarrow> weave ss others = map Own ss"
  by (induction ss others rule: weave.induct) simp_all

lemma stream_messages_shared_alone:
  assumes "concat others = []"
  shows "stream_messages_shared d prompt now others t = stream_messages d prompt now t"
proof -
  have w: "weave ss others = map Own ss" for ss
    using assms by (rule weave_alone)
  show ?thesis
    unfolding stream_messages_shared_def stream_messages_def w run_stream_shared_own ..
qed

lemma post_chat_shared_alone:
  "concat others = [] \<Longrightarrow>
   post_chat_shared d prompt now consumer others p = post_chat d prompt now consumer p"
  by (simp add: post_chat_shared_def post_chat_def stream_messages_shared_alone)

text \<open>
  Claim C4, amended. For a turn that no other turn of the process overlaps (nothing
  else clears or appends to the shared tool-event list while it runs), the events
  \<open>post_chat\<close> yields are a prefix of the sequence the spec words, and all of it when the
  turn completes: the user message with the prompt and the current time comes first
  (whenever the consumer takes anything), and around any fragment the tool events
  accumulated before it come before its model message, in the order of their
  accumulation, and those accumulated after it come after.
\<close>

theorem turn_event_order:
  assumes alone: "concat others = []"
    and pcs: "post_chat_shared d prompt now consumer others p = (r, t')"
  shows "prefix (emitted (trace t')) (spec_turn d (sandbox p) prompt now (database p))
       \<and> (r = Inr () \<longrightarrow> emitted (trace t') = spec_turn d (sandbox p) prompt now (database p))
       \<and> (consumer \<noteq> Some 0 \<longrightarrow>
            (\<exists>rest. emitted (trace t') = \<lparr>role = User, timestamp = now, content = prompt\<rparr> # rest))
       \<and> (get_messages (decode d) (database p) = Inr messages
            \<and> steps (agent d prompt messages) = before @ TextChunk body # after
            \<longrightarrow> spec_turn d (sandbox p) prompt now (database p)
                = \<lparr>role = User, timestamp = now, content = prompt\<rparr>
                  # spec_events d (sandbox p) (result_timestamp (agent d prompt messages)) before
                  @ \<lparr>role = Model, timestamp = result_timestamp (agent d prompt messages),
                      content = body\<rparr>
                  # spec_events d (sandbox p) (result_timestamp (agent d prompt messages)) after)"
proof -
  let ?t = "\<lparr>budget = consumer, trace = [], proc = p\<rparr>"
  let ?u = "\<lparr>role = User, timestamp = now, content = prompt\<rparr>"
  from alone pcs have pc: "post_chat d prompt now consumer p = (r, t')"
    by (simp add: post_chat_shared_alone)
  from pc have sm: "stream_messages d prompt now ?t = (r, t')" by (simp add: post_chat_def)
  from stream_messages_effect[OF sm] obtain es bs where
    e: "trace t' = map Emit es @ map Persist bs"
       "prefix es (spec_turn d (sandbox p) prompt now (database p))"
       "consumer \<noteq> Some 0 \<longrightarrow> es \<noteq> []"
       "r = Inr () \<longrightarrow> es = spec_turn d (sandbox p) prompt now (database p)"
    by auto
  have em: "emitted (trace t') = es"
    by (simp add: e(1) emitted_append emitted_map_Emit emitted_map_Persist)
  have sp: "\<And>sb rts xs ys. spec_events d sb rts (xs @ ys) = spec_events d sb rts xs @ spec_events d sb rts ys"
  proof -
    fix sb rts xs ys
    show "spec_events d sb rts (xs @ ys) = spec_events d sb rts xs @ spec_events d sb rts ys"
      by (induction d sb rts xs rule: spec_events.induct) simp_all
  qed
  have 3: "consumer \<noteq> Some 0 \<longrightarrow> (\<exists>rest. emitted (trace t') = ?u # rest)"
  proof
    assume "consumer \<noteq> Some 0"
    with e(3) have "es \<noteq> []" by simp
    moreover have "hd (spec_turn d (sandbox p) prompt now (database p)) = ?u" by (simp add: spec_turn_def)
    ultimately have "hd es = ?u" using e(2) by (metis hd_append2 prefix_def)
    with \<open>es \<noteq> []\<close> em show "\<exists>rest. emitted (trace t') = ?u # rest"
      by (cases es) simp_all
  qed
  have 4: "get_messages (decode d) (database p) = Inr messages
            \<and> steps (agent d prompt messages) = before @ TextChunk body # after
            \<longrightarrow> spec_turn d (sandbox p) prompt now (database p)
                = ?u # spec_events d (sandbox p) (result_timestamp (agent d prompt messages)) before
                  @ \<lparr>role = Model, timestamp = result_timestamp (agent d prompt messages),
                      content = body\<rparr>
                  # spec_events d (sandbox p) (result_timestamp (agent d prompt messages)) after"
    by (simp add: spec_turn_def Let_def sp)
  have 1: "prefix (emitted (trace t')) (spec_turn d (sandbox p) prompt now (database p))"
    using e(2) em by simp
  have 2: "r = Inr () \<longrightarrow> emitted (trace t') = spec_turn d (sandbox p) prompt now (database p)"
    using e(4) em by simp
  show ?thesis
    by (intro conjI) (rule 1, rule 2, rule 3, rule 4)
qed

theorem turn_event_order_witness:
  "emitted (trace (snd (post_chat_shared scenario_deps (lit ''read both'') 2 None []
                          (initial_process (connect None)))))
   = [\<lparr>role = User, timestamp = 2, content = lit ''read both''\<rparr>,
      \<lparr>role = Tool, timestamp = 3,
        content = lit ''read_file(/etc/passwd) -- BLOCKED by nono sandbox (permission denied)''\<rparr>,
      \<lparr>role = Tool, timestamp = 4,
        content = lit ''read_file(/sandbox/notes.txt) -- ALLOWED (5 bytes read)''\<rparr>,
      \<lparr>role = Model, timestamp = 5, content = lit ''Hi''\<rparr>]"
proof -
  let ?full = "post_chat_shared scenario_deps (lit ''read both'') 2 None []
                 (initial_process (connect None))"
  have alone: "concat ([] :: foreign list list) = []" by simp
  have f: "?full = (fst ?full, snd ?full)" by simp
  have "fst (stream_messages scenario_deps (lit ''read both'') 2
          \<lparr>budget = None, trace = [], proc = initial_process (connect None)\<rparr>) = Inr ()"
    using stream_messages_completes
      [of "\<lparr>budget = None, trace = [], proc = initial_process (connect None)\<rparr>"
          scenario_deps "[]" "lit ''read both''" 2]
      scenario_history scenario_steps_ok
    by simp
  then have r: "fst ?full = Inr ()"
    by (simp add: post_chat_def post_chat_shared_alone)
  have g: "get_messages (decode scenario_deps) (database (initial_process (connect None))) = Inr []
      \<and> steps (agent scenario_deps (lit ''read both'') [])
        = [ToolCall (lit ''/etc/passwd'') 3, ToolCall (lit ''/sandbox/notes.txt'') 4]
          @ TextChunk (lit ''Hi'') # []"
    using scenario_history by (simp add: scenario_deps_def)
  have n: "(None :: nat option) \<noteq> Some 0" by simp
  from turn_event_order
      [OF alone f, where messages = "[]"
         and before = "[ToolCall (lit ''/etc/passwd'') 3, ToolCall (lit ''/sandbox/notes.txt'') 4]"
         and body = "lit ''Hi''" and after = "[]"] r g n
  have "emitted (trace (snd ?full))
      = spec_turn scenario_deps (sandbox (initial_process (connect None))) (lit ''read both'') 2 (database (initial_process (connect None)))"
    by blast
  then show ?thesis by (simp add: scenario_spec_turn)
qed

text \<open>
  Claim C4 as stated fails: while the turn awaits its final fragment another turn of
  the process clears the shared list and its agent calls the tool. The turn then
  completes having yielded the other turn's tool event and neither of its own, which
  it had accumulated before the fragment.
\<close>

theorem overlapping_turn_counterexample:
  "emitted (trace (snd (post_chat_shared scenario_deps (lit ''read both'') 2 None
             [[], [], [ForeignClear, ForeignToolCall (lit ''/etc/shadow'') 9]]
             (initial_process (connect None)))))
   = [\<lparr>role = User, timestamp = 2, content = lit ''read both''\<rparr>,
      \<lparr>role = Tool, timestamp = 9,
        content = lit ''read_file(/etc/shadow) -- BLOCKED by nono sandbox (permission denied)''\<rparr>,
      \<lparr>role = Model, timestamp = 5, content = lit ''Hi''\<rparr>]
   \<and> accumulated scenario_deps None 3 (lit ''/etc/passwd'')
     = [\<lparr>role = Tool, timestamp = 3,
         content = lit ''read_file(/etc/passwd) -- BLOCKED by nono sandbox (permission denied)''\<rparr>]
   \<and> steps (agent scenario_deps (lit ''read both'') [])
     = [ToolCall (lit ''/etc/passwd'') 3, ToolCall (lit ''/sandbox/notes.txt'') 4,
        TextChunk (lit ''Hi'')]"
  by (simp add: post_chat_shared_def stream_messages_shared_def get_messages_def
        select_message_list_def connect_def initial_process_def scenario_deps_def
        scenario_read_text_def clear_tool_events_def persist_def yield_def Let_def
        read_file_def tool_event_def accumulated_def lit_def str_of_nat_def add_messages_def
        next_id_def)

section \<open>The sandbox is applied once, before the server runs\<close>

lemma post_chat_frame:
  "sandbox (proc (snd (post_chat d prompt now consumer p))) = sandbox p
   \<and> apply_calls (proc (snd (post_chat d prompt now consumer p))) = apply_calls p"
proof -
  let ?t = "\<lparr>budget = consumer, trace = [], proc = p\<rparr>"
  obtain r t' where sm: "stream_messages d prompt now ?t = (r, t')"
    by (cases "stream_messages d prompt now ?t")
  from stream_messages_effect[OF sm] have
    "sandbox (proc t') = sandbox p \<and> apply_calls (proc t') = apply_calls p"
    by auto
  with sm show ?thesis by (simp add: post_chat_def)
qed

lemma handle_frame:
  "sandbox (snd (handle d rq p)) = sandbox p \<and> apply_calls (snd (handle d rq p)) = apply_calls p"
proof (cases rq)
  case GetChat
  then show ?thesis by simp
next
  case (PostChat prompt now consumer)
  with post_chat_frame[of d prompt now consumer p] show ?thesis
    by (auto split: prod.splits)
qed

lemma uvicorn_run_frame:
  "sandbox (snd (uvicorn_run d reqs p)) = sandbox p
   \<and> apply_calls (snd (uvicorn_run d reqs p)) = apply_calls p"
proof (induction reqs arbitrary: p)
  case Nil
  then show ?case by simp
next
  case (Cons rq reqs)
  obtain r p' where h: "handle d rq p = (r, p')" by (cases "handle d rq p")
  with handle_frame[of d rq p] have "sandbox p' = sandbox p" "apply_calls p' = apply_calls p"
    by simp_all
  with h Cons.IH[of p'] show ?case by (auto split: prod.splits)
qed

text \<open>The request after \<open>pre\<close> is handled in the state the server has reached on \<open>pre\<close>.\<close>

lemma uvicorn_run_nth:
  "fst (uvicorn_run d (pre @ rq # post) p) ! length pre
     = fst (handle d rq (snd (uvicorn_run d pre p)))"
proof (induction pre arbitrary: p)
  case Nil
  then show ?case by (auto split: prod.splits)
next
  case (Cons x pre)
  obtain r p' where h: "handle d x p = (r, p')" by (cases "handle d x p")
  with Cons.IH[of p'] show ?case by (auto split: prod.splits)
qed

text \<open>After the sandbox is applied, only the answers under the applied set reach a turn.\<close>

lemma enforcing_fields:
  "read_text (enforcing caps d) sb = read_text d (Some caps)"
  "decode (enforcing caps d) = decode d"
  "repr (enforcing caps d) = repr d"
  "agent (enforcing caps d) = agent d"
  by (simp_all add: enforcing_def)

lemma run_stream_enforcing:
  "sandbox (proc t) = Some caps \<Longrightarrow>
   run_stream (enforcing caps d) rts ss t = run_stream d rts ss t"
proof (induction ss arbitrary: t)
  case Nil
  then show ?case by simp
next
  case (Cons st ss)
  show ?case
  proof (cases st)
    case (ToolCall path now)
    obtain x p' where rf: "read_file (read_text d (Some caps)) now path (proc t) = (x, p')"
      by (cases "read_file (read_text d (Some caps)) now path (proc t)")
    have "sandbox p' = Some caps"
      using read_file_frame[of "read_text d (Some caps)" now path "proc t"] rf Cons.prems by simp
    then have "run_stream (enforcing caps d) rts ss (t\<lparr>proc := p'\<rparr>)
        = run_stream d rts ss (t\<lparr>proc := p'\<rparr>)"
      using Cons.IH[of "t\<lparr>proc := p'\<rparr>"] by simp
    with rf ToolCall Cons.prems show ?thesis
      by (cases x) (simp_all add: enforcing_fields)
  next
    case (TextChunk body)
    let ?m = "\<lparr>role = Model, timestamp = rts, content = body\<rparr>"
    obtain r1 t1 where ye: "yield_each (tool_events (proc t)) t = (r1, t1)"
      by (cases "yield_each (tool_events (proc t)) t")
    obtain r2 t2 where y2: "yield ?m (clear_tool_events t1) = (r2, t2)"
      by (cases "yield ?m (clear_tool_events t1)")
    have "sandbox (proc t2) = Some caps"
      using yield_each_effect[OF ye] yield_effect[OF y2] Cons.prems
      by (auto simp: clear_tool_events_def)
    then have "run_stream (enforcing caps d) rts ss t2 = run_stream d rts ss t2"
      by (rule Cons.IH)
    with ye y2 TextChunk show ?thesis
      by (cases r1; cases r2) (simp_all add: enforcing_fields)
  next
    case (AgentRaise e)
    then show ?thesis by simp
  qed
qed

lemma stream_messages_enforcing:
  assumes sb: "sandbox (proc t) = Some caps"
  shows "stream_messages (enforcing caps d) prompt now t = stream_messages d prompt now t"
proof -
  have rs: "run_stream (enforcing caps d) rts ss (clear_tool_events t1)
            = run_stream d rts ss (clear_tool_events t1)"
    if "proc t1 = proc t" for rts ss t1
    using that sb by (intro run_stream_enforcing) (simp add: clear_tool_events_def)
  let ?u = "\<lparr>role = User, timestamp = now, content = prompt\<rparr>"
  obtain r1 t1 where y1: "yield ?u t = (r1, t1)" by (cases "yield ?u t")
  from yield_effect[OF y1] have p1: "proc t1 = proc t" by simp
  show ?thesis
    unfolding stream_messages_def enforcing_fields y1
    by (cases r1) (simp_all add: rs[OF p1] Let_def split: sum.splits)
qed

lemma post_chat_enforcing:
  "sandbox p = Some caps \<Longrightarrow>
   post_chat (enforcing caps d) prompt now consumer p = post_chat d prompt now consumer p"
  by (simp add: post_chat_def stream_messages_enforcing)

lemma handle_enforcing:
  "sandbox p = Some caps \<Longrightarrow> handle (enforcing caps d) rq p = handle d rq p"
  by (cases rq) (simp_all add: post_chat_enforcing enforcing_fields)

lemma uvicorn_run_enforcing:
  "sandbox p = Some caps \<Longrightarrow>
   uvicorn_run (enforcing caps d) reqs p = uvicorn_run d reqs p"
proof (induction reqs arbitrary: p)
  case Nil
  then show ?case by simp
next
  case (Cons rq reqs)
  obtain r p' where h: "handle d rq p = (r, p')" by (cases "handle d rq p")
  with handle_frame[of d rq p] Cons.prems have "sandbox p' = Some caps" by simp
  with h Cons show ?case by (simp add: handle_enforcing)
qed

text \<open>A turn that is read to the end and meets no raising step yields the whole order.\<close>

lemma post_chat_completed:
  assumes gm: "get_messages (decode d) (database p) = Inr messages"
    and ok: "list_all (step_ok d (sandbox p)) (steps (agent d prompt messages))"
  shows "fst (post_chat d prompt now None p) = Inr ()
       \<and> trace (snd (post_chat d prompt now None p))
           = map Emit (spec_turn d (sandbox p) prompt now (database p))
             @ [Persist (new_messages_json (agent d prompt messages))]"
proof -
  let ?t = "\<lparr>budget = None, trace = [], proc = p\<rparr>"
  obtain r t' where sm: "stream_messages d prompt now ?t = (r, t')"
    by (cases "stream_messages d prompt now ?t")
  have r: "r = Inr ()"
    using stream_messages_completes[of ?t d messages prompt now] gm ok sm by simp
  from stream_messages_effect[OF sm] r gm obtain es bs where
    "trace t' = map Emit es @ map Persist bs"
    "es = spec_turn d (sandbox p) prompt now (database p)"
    "bs = [new_messages_json (agent d prompt messages)]"
    by auto
  with sm r show ?thesis by (simp add: post_chat_def)
qed

text \<open>The turn that asks for the private key, with and without the sandbox.\<close>

lemma kernel_history:
  "get_messages (decode kernel_deps) (connect None) = Inr []"
  by (simp add: get_messages_def select_message_list_def connect_def)

lemma kernel_steps_ok:
  "list_all (step_ok kernel_deps sb) (steps (agent kernel_deps prompt messages))"
  by (simp add: kernel_deps_def enforced_def home_files_def split: option.splits)

lemma key_outside_capabilities:
  "\<not> check (capabilities example_environment) (lit ''/root/.ssh/id_rsa'') READ"
  by (simp add: check_def capabilities_def allow_path_def example_environment_def covers_def
        permits_def lit_def)

lemma kernel_spec_turn_sandboxed:
  "spec_turn kernel_deps (Some (capabilities example_environment)) (lit ''show the key'') 2
     (connect None)
   = [\<lparr>role = User, timestamp = 2, content = lit ''show the key''\<rparr>,
      \<lparr>role = Tool, timestamp = 3,
        content = lit ''read_file(/root/.ssh/id_rsa) -- BLOCKED by nono sandbox (permission denied)''\<rparr>,
      \<lparr>role = Model, timestamp = 5, content = lit ''Hi''\<rparr>]"
proof -
  have a: "accumulated kernel_deps (Some (capabilities example_environment)) 3 (lit ''/root/.ssh/id_rsa'')
      = [\<lparr>role = Tool, timestamp = 3,
          content = lit ''read_file(/root/.ssh/id_rsa) -- BLOCKED by nono sandbox (permission denied)''\<rparr>]"
    using key_outside_capabilities
    by (simp add: accumulated_def read_file_def kernel_deps_def enforced_def
          initial_process_def tool_event_def lit_def)
  have c: "agent kernel_deps (lit ''show the key'') []
      = \<lparr>steps = [ToolCall (lit ''/root/.ssh/id_rsa'') 3, TextChunk (lit ''Hi'')],
         result_timestamp = 5, new_messages_json = ''turn''\<rparr>"
    by (simp add: kernel_deps_def)
  show ?thesis
    by (simp add: spec_turn_def kernel_history c a)
qed

lemma kernel_spec_turn_open:
  "spec_turn kernel_deps None (lit ''show the key'') 2 (connect None)
   = [\<lparr>role = User, timestamp = 2, content = lit ''show the key''\<rparr>,
      \<lparr>role = Tool, timestamp = 3,
        content = lit ''read_file(/root/.ssh/id_rsa) -- ALLOWED (3 bytes read)''\<rparr>,
      \<lparr>role = Model, timestamp = 5, content = lit ''Hi''\<rparr>]"
proof -
  have a: "accumulated kernel_deps None 3 (lit ''/root/.ssh/id_rsa'')
      = [\<lparr>role = Tool, timestamp = 3,
          content = lit ''read_file(/root/.ssh/id_rsa) -- ALLOWED (3 bytes read)''\<rparr>]"
    by (simp add: accumulated_def read_file_def kernel_deps_def enforced_def home_files_def
          initial_process_def tool_event_def lit_def str_of_nat_def)
  have c: "agent kernel_deps (lit ''show the key'') []
      = \<lparr>steps = [ToolCall (lit ''/root/.ssh/id_rsa'') 3, TextChunk (lit ''Hi'')],
         result_timestamp = 5, new_messages_json = ''turn''\<rparr>"
    by (simp add: kernel_deps_def)
  show ?thesis
    by (simp add: spec_turn_def kernel_history c a)
qed

text \<open>
  Claim C1. In a process that has no sandbox yet, \<open>serve\<close> without \<open>--no-sandbox\<close>
  calls \<open>apply\<close> once, with the capability set \<open>_apply_sandbox\<close> builds, and hands
  the whole traffic to the server only after that: the server handles the traffic
  exactly as under an operating system that enforces that set on every read, and
  every request is handled in a state in which that set is the applied one and
  \<open>apply\<close> has been called once. No request handler, \<open>read_file\<close> and the turn of
  \<open>post_chat\<close> included, changes the applied set; a further \<open>apply\<close> fails with
  \<open>AlreadyApplied\<close>, and \<open>serve\<close> in a process that already has a sandbox fails
  before the server starts.
\<close>

theorem sandbox_applied_once:
  assumes fresh: "sandbox p = None"
  shows "serve d env False traffic p
           = Inr (uvicorn_run d traffic
                    (p\<lparr>sandbox := Some (capabilities env), apply_calls := Suc (apply_calls p)\<rparr>))
       \<and> uvicorn_run d traffic
            (p\<lparr>sandbox := Some (capabilities env), apply_calls := Suc (apply_calls p)\<rparr>)
           = uvicorn_run (enforcing (capabilities env) d) traffic
               (p\<lparr>sandbox := Some (capabilities env), apply_calls := Suc (apply_calls p)\<rparr>)
       \<and> (traffic = pre @ rq # post \<longrightarrow>
            fst (uvicorn_run d traffic
                   (p\<lparr>sandbox := Some (capabilities env), apply_calls := Suc (apply_calls p)\<rparr>))
              ! length pre
            = fst (handle d rq (snd (uvicorn_run d pre
                   (p\<lparr>sandbox := Some (capabilities env), apply_calls := Suc (apply_calls p)\<rparr>))))
            \<and> sandbox (snd (uvicorn_run d pre
                   (p\<lparr>sandbox := Some (capabilities env), apply_calls := Suc (apply_calls p)\<rparr>)))
                = Some (capabilities env)
            \<and> apply_calls (snd (uvicorn_run d pre
                   (p\<lparr>sandbox := Some (capabilities env), apply_calls := Suc (apply_calls p)\<rparr>)))
                = Suc (apply_calls p))
       \<and> sandbox (snd (uvicorn_run d reqs
                   (p\<lparr>sandbox := Some (capabilities env), apply_calls := Suc (apply_calls p)\<rparr>)))
           = Some (capabilities env)
       \<and> apply_calls (snd (uvicorn_run d reqs
                   (p\<lparr>sandbox := Some (capabilities env), apply_calls := Suc (apply_calls p)\<rparr>)))
           = Suc (apply_calls p)
       \<and> (sandbox q \<noteq> None \<longrightarrow>
            nono_apply caps q = Inl AlreadyApplied \<and> apply_sandbox env q = Inl AlreadyApplied
            \<and> serve d env False traffic q = Inl AlreadyApplied)
       \<and> sandbox (snd (read_file rt now path q)) = sandbox q
       \<and> sandbox (proc (snd (post_chat d prompt now consumer q))) = sandbox q
       \<and> sandbox (snd (handle d rq q)) = sandbox q"
proof -
  let ?p1 = "p\<lparr>sandbox := Some (capabilities env), apply_calls := Suc (apply_calls p)\<rparr>"
  have 1: "serve d env False traffic p = Inr (uvicorn_run d traffic ?p1)"
    using fresh by (simp add: serve_def apply_sandbox_def nono_apply_def)
  have 2: "uvicorn_run d traffic ?p1 = uvicorn_run (enforcing (capabilities env) d) traffic ?p1"
    using uvicorn_run_enforcing[of ?p1 "capabilities env" d traffic] by simp
  have 3: "traffic = pre @ rq # post \<longrightarrow>
            fst (uvicorn_run d traffic ?p1) ! length pre
            = fst (handle d rq (snd (uvicorn_run d pre ?p1)))
            \<and> sandbox (snd (uvicorn_run d pre ?p1)) = Some (capabilities env)
            \<and> apply_calls (snd (uvicorn_run d pre ?p1)) = Suc (apply_calls p)"
    using uvicorn_run_nth[of d pre rq post ?p1] uvicorn_run_frame[of d pre ?p1] by simp
  have 4: "sandbox (snd (uvicorn_run d reqs ?p1)) = Some (capabilities env)"
    using uvicorn_run_frame[of d reqs ?p1] by simp
  have 5: "apply_calls (snd (uvicorn_run d reqs ?p1)) = Suc (apply_calls p)"
    using uvicorn_run_frame[of d reqs ?p1] by simp
  have 6: "sandbox q \<noteq> None \<longrightarrow>
            nono_apply caps q = Inl AlreadyApplied \<and> apply_sandbox env q = Inl AlreadyApplied
            \<and> serve d env False traffic q = Inl AlreadyApplied"
    by (auto simp: serve_def apply_sandbox_def nono_apply_def)
  have 7: "sandbox (snd (read_file rt now path q)) = sandbox q"
    using read_file_frame[of rt now path q] by simp
  have 8: "sandbox (proc (snd (post_chat d prompt now consumer q))) = sandbox q"
    using post_chat_frame[of d prompt now consumer q] by simp
  have 9: "sandbox (snd (handle d rq q)) = sandbox q"
    using handle_frame[of d rq q] by simp
  show ?thesis
    by (intro conjI)
       (rule 1, rule 2, rule 3, rule 4, rule 5, rule 6, rule 7, rule 8, rule 9)
qed

text \<open>
  The theorem at the turn that asks for the private key: served after \<open>apply\<close>, the
  read is blocked; the same traffic handled in the process before any \<open>apply\<close> reads
  the key.
\<close>

theorem sandbox_applied_once_witness:
  "(case serve kernel_deps example_environment False
           [PostChat (lit ''show the key'') 2 None] (initial_process (connect None)) of
      Inl e \<Rightarrow> False
    | Inr (responses, p') \<Rightarrow>
        responses =
          [Stream (Inr ())
             [Emit \<lparr>role = User, timestamp = 2, content = lit ''show the key''\<rparr>,
              Emit \<lparr>role = Tool, timestamp = 3,
                    content = lit ''read_file(/root/.ssh/id_rsa) -- BLOCKED by nono sandbox (permission denied)''\<rparr>,
              Emit \<lparr>role = Model, timestamp = 5, content = lit ''Hi''\<rparr>,
              Persist ''turn'']]
        \<and> sandbox p' = Some (capabilities example_environment) \<and> apply_calls p' = Suc 0
        \<and> nono_apply [] p' = Inl AlreadyApplied)
   \<and> fst (uvicorn_run kernel_deps [PostChat (lit ''show the key'') 2 None]
             (initial_process (connect None)))
      = [Stream (Inr ())
           [Emit \<lparr>role = User, timestamp = 2, content = lit ''show the key''\<rparr>,
            Emit \<lparr>role = Tool, timestamp = 3,
                  content = lit ''read_file(/root/.ssh/id_rsa) -- ALLOWED (3 bytes read)''\<rparr>,
            Emit \<lparr>role = Model, timestamp = 5, content = lit ''Hi''\<rparr>,
            Persist ''turn'']]"
proof -
  let ?p0 = "initial_process (connect None)"
  let ?rq = "PostChat (lit ''show the key'') 2 None"
  let ?caps = "capabilities example_environment"
  let ?p1 = "?p0\<lparr>sandbox := Some ?caps, apply_calls := Suc (apply_calls ?p0)\<rparr>"
  let ?pc1 = "post_chat kernel_deps (lit ''show the key'') 2 None ?p1"
  let ?pc0 = "post_chat kernel_deps (lit ''show the key'') 2 None ?p0"
  have fresh: "sandbox ?p0 = None" by (simp add: initial_process_def)
  have z: "apply_calls ?p0 = 0" by (simp add: initial_process_def)
  have db0: "database ?p0 = connect None" by (simp add: initial_process_def)
  have db1: "database ?p1 = connect None" by (simp add: initial_process_def)
  have sb1: "sandbox ?p1 = Some ?caps" by simp
  have j: "new_messages_json (agent kernel_deps (lit ''show the key'') []) = ''turn''"
    by (simp add: kernel_deps_def)
  obtain rs p' where U: "uvicorn_run kernel_deps [?rq] ?p1 = (rs, p')"
    by (cases "uvicorn_run kernel_deps [?rq] ?p1")
  have H1: "uvicorn_run kernel_deps [?rq] ?p1 = ([Stream (fst ?pc1) (trace (snd ?pc1))], proc (snd ?pc1))"
    by (simp split: prod.splits)
  have H0: "uvicorn_run kernel_deps [?rq] ?p0 = ([Stream (fst ?pc0) (trace (snd ?pc0))], proc (snd ?pc0))"
    by (simp split: prod.splits)
  note T = sandbox_applied_once
    [OF fresh, where d = kernel_deps and env = example_environment and traffic = "[?rq]"
       and reqs = "[?rq]" and q = p' and caps = "[]"
       and pre = "[]" and rq = ?rq and post = "[]", unfolded U snd_conv fst_conv]
  from T have s: "serve kernel_deps example_environment False [?rq] ?p0 = Inr (rs, p')"
    by blast
  from T have a: "sandbox p' = Some ?caps"
    by blast
  from T z have b: "apply_calls p' = Suc 0"
    by simp
  from T a have c: "nono_apply [] p' = Inl AlreadyApplied"
    by simp
  have pc1: "fst ?pc1 = Inr ()
       \<and> trace (snd ?pc1)
           = map Emit (spec_turn kernel_deps (Some ?caps) (lit ''show the key'') 2 (connect None))
             @ [Persist ''turn'']"
    using post_chat_completed[of kernel_deps ?p1 "[]" "lit ''show the key''" 2]
      kernel_history kernel_steps_ok
    unfolding sb1 j db1 by blast
  have pc0: "fst ?pc0 = Inr ()
       \<and> trace (snd ?pc0)
           = map Emit (spec_turn kernel_deps None (lit ''show the key'') 2 (connect None))
             @ [Persist ''turn'']"
    using post_chat_completed[of kernel_deps ?p0 "[]" "lit ''show the key''" 2]
      kernel_history kernel_steps_ok
    unfolding fresh j db0 by blast
  from U H1 have "rs = [Stream (fst ?pc1) (trace (snd ?pc1))]" by simp
  with pc1 have r1: "rs =
          [Stream (Inr ())
             [Emit \<lparr>role = User, timestamp = 2, content = lit ''show the key''\<rparr>,
              Emit \<lparr>role = Tool, timestamp = 3,
                    content = lit ''read_file(/root/.ssh/id_rsa) -- BLOCKED by nono sandbox (permission denied)''\<rparr>,
              Emit \<lparr>role = Model, timestamp = 5, content = lit ''Hi''\<rparr>,
              Persist ''turn'']]"
    by (simp add: kernel_spec_turn_sandboxed)
  from H0 pc0 have r0: "fst (uvicorn_run kernel_deps [?rq] ?p0)
      = [Stream (Inr ())
           [Emit \<lparr>role = User, timestamp = 2, content = lit ''show the key''\<rparr>,
            Emit \<lparr>role = Tool, timestamp = 3,
                  content = lit ''read_file(/root/.ssh/id_rsa) -- ALLOWED (3 bytes read)''\<rparr>,
            Emit \<lparr>role = Model, timestamp = 5, content = lit ''Hi''\<rparr>,
            Persist ''turn'']]"
    by (simp add: kernel_spec_turn_open)
  show ?thesis
    unfolding s r0 using a b c r1 by simp
qed

section \<open>The file tool checks nothing itself\<close>

lemma read_file_blocked_iff:
  "fst (read_file rt now path p)
     = Inr (lit ''BLOCKED by nono sandbox: permission denied reading '' @ path)
   \<longleftrightarrow> rt path = Inl PermissionError
        \<or> (\<exists>body. rt path = Inr body
              \<and> take 4096 body = lit ''BLOCKED by nono sandbox: permission denied reading '' @ path)"
proof (cases "rt path")
  case (Inr body)
  then show ?thesis by (simp add: read_file_ok)
next
  case (Inl exc)
  then show ?thesis
    by (cases exc) (simp_all add: read_file_def lit_def)
qed

lemma read_file_blocked_event_iff:
  "tool_events (snd (read_file rt now path p))
     = tool_events p @ [tool_event now (lit ''read_file('' @ path
                           @ lit '') -- BLOCKED by nono sandbox (permission denied)'')]
   \<longleftrightarrow> rt path = Inl PermissionError"
proof (cases "rt path")
  case (Inr body)
  then show ?thesis by (simp add: read_file_ok tool_event_def lit_def)
next
  case (Inl exc)
  then show ?thesis
    by (cases exc) (simp_all add: read_file_def tool_event_def lit_def)
qed

text \<open>
  Claim C10, amended. \<open>read_file\<close> performs no capability check of its own and never
  consults the capability set: its result and its effects are the same whatever set
  is applied. A permission error from the operating system always gives the
  "BLOCKED by nono sandbox" message, and the BLOCKED tool event is appended if and
  only if the read raised a permission error; the returned string is that message if
  and only if the read raised a permission error or succeeded on a file whose
  content, cut to 4096, is that very text. With \<open>--no-sandbox\<close> no sandbox is ever
  applied, and \<open>read_file\<close> returns the content of any path the operating system
  lets the process read.
\<close>

theorem read_file_no_check:
  "read_file rt now path (p\<lparr>sandbox := caps\<rparr>)
     = (fst (read_file rt now path p), (snd (read_file rt now path p))\<lparr>sandbox := caps\<rparr>)
   \<and> (rt path = Inl PermissionError \<longrightarrow>
        fst (read_file rt now path p)
          = Inr (lit ''BLOCKED by nono sandbox: permission denied reading '' @ path))
   \<and> (fst (read_file rt now path p)
          = Inr (lit ''BLOCKED by nono sandbox: permission denied reading '' @ path)
        \<longleftrightarrow> rt path = Inl PermissionError
             \<or> (\<exists>body. rt path = Inr body
                   \<and> take 4096 body
                       = lit ''BLOCKED by nono sandbox: permission denied reading '' @ path))
   \<and> (tool_events (snd (read_file rt now path p))
          = tool_events p @ [tool_event now (lit ''read_file('' @ path
                                @ lit '') -- BLOCKED by nono sandbox (permission denied)'')]
        \<longleftrightarrow> rt path = Inl PermissionError)
   \<and> serve d env True traffic p = Inr (uvicorn_run d traffic p)
   \<and> (sandbox p = None \<longrightarrow>
        sandbox (snd (uvicorn_run d traffic p)) = None
        \<and> apply_calls (snd (uvicorn_run d traffic p)) = apply_calls p)
   \<and> (rt path = Inr body \<longrightarrow> fst (read_file rt now path p) = Inr (take 4096 body))"
proof -
  have 1: "read_file rt now path (p\<lparr>sandbox := caps\<rparr>)
     = (fst (read_file rt now path p), (snd (read_file rt now path p))\<lparr>sandbox := caps\<rparr>)"
    by (rule read_file_sandbox_update)
  have 2: "rt path = Inl PermissionError \<longrightarrow>
        fst (read_file rt now path p)
          = Inr (lit ''BLOCKED by nono sandbox: permission denied reading '' @ path)"
    by (simp add: read_file_denied)
  have 5: "serve d env True traffic p = Inr (uvicorn_run d traffic p)"
    by (simp add: serve_def)
  have 6: "sandbox p = None \<longrightarrow>
        sandbox (snd (uvicorn_run d traffic p)) = None
        \<and> apply_calls (snd (uvicorn_run d traffic p)) = apply_calls p"
    using uvicorn_run_frame[of d traffic p] by simp
  have 7: "rt path = Inr body \<longrightarrow> fst (read_file rt now path p) = Inr (take 4096 body)"
    by (simp add: read_file_ok)
  show ?thesis
    by (intro conjI)
       (rule 1, rule 2, rule read_file_blocked_iff, rule read_file_blocked_event_iff,
        rule 5, rule 6, rule 7)
qed

theorem read_file_no_check_witness:
  "fst (read_file scenario_read_text 3 (lit ''/etc/passwd'') (initial_process (connect None)))
     = Inr (lit ''BLOCKED by nono sandbox: permission denied reading '' @ lit ''/etc/passwd'')
   \<and> fst (read_file scenario_read_text 4 (lit ''/sandbox/notes.txt'') (initial_process (connect None)))
     = Inr (take 4096 (lit ''hello''))
   \<and> sandbox (snd (uvicorn_run scenario_deps [PostChat (lit ''read both'') 2 None]
                      (initial_process (connect None)))) = None"
proof -
  have a: "scenario_read_text (lit ''/etc/passwd'') = Inl PermissionError"
    by (simp add: scenario_read_text_def lit_def)
  have b: "scenario_read_text (lit ''/sandbox/notes.txt'') = Inr (lit ''hello'')"
    by (simp add: scenario_read_text_def)
  have c: "sandbox (initial_process (connect None)) = None"
    by (simp add: initial_process_def)
  from a read_file_no_check
      [where rt = scenario_read_text and path = "lit ''/etc/passwd''" and now = 3
         and p = "initial_process (connect None)"]
  have 1: "fst (read_file scenario_read_text 3 (lit ''/etc/passwd'') (initial_process (connect None)))
     = Inr (lit ''BLOCKED by nono sandbox: permission denied reading '' @ lit ''/etc/passwd'')"
    by blast
  from b read_file_no_check
      [where rt = scenario_read_text and path = "lit ''/sandbox/notes.txt''" and now = 4
         and body = "lit ''hello''" and p = "initial_process (connect None)"]
  have 2: "fst (read_file scenario_read_text 4 (lit ''/sandbox/notes.txt'') (initial_process (connect None)))
     = Inr (take 4096 (lit ''hello''))"
    by blast
  from c read_file_no_check
      [where p = "initial_process (connect None)" and d = scenario_deps
         and traffic = "[PostChat (lit ''read both'') 2 None]"]
  have 3: "sandbox (snd (uvicorn_run scenario_deps [PostChat (lit ''read both'') 2 None]
                      (initial_process (connect None)))) = None"
    by blast
  from 1 2 3 show ?thesis by blast
qed

text \<open>
  Claim C10 as stated fails: a readable file that holds the text of the message makes
  \<open>read_file\<close> return the "BLOCKED by nono sandbox" message without any permission
  error.
\<close>

theorem blocked_text_counterexample:
  "fst (read_file blocked_text_file 0 (lit ''/tmp/x'') (initial_process (connect None)))
     = Inr (lit ''BLOCKED by nono sandbox: permission denied reading '' @ lit ''/tmp/x'')
   \<and> blocked_text_file (lit ''/tmp/x'') \<noteq> Inl PermissionError"
  by (simp add: read_file_def lit_def blocked_text_file_def)

end
